theory Spec2Isabelle
  imports Main "HOL-Library.Char_ord" "HOL-Library.List_Lexorder"
begin

section \<open>Python values, exceptions and dictionaries\<close>

text \<open>
  The job builder (\<^verbatim>\<open>lithops/job/job.py\<close>) and the executor
  (\<^verbatim>\<open>lithops/executors.py\<close>) read their settings from a dictionary of
  dictionaries whose entries are ordinary Python objects. The entries that the modelled
  code computes with are \<^verbatim>\<open>None\<close>, booleans, integers and strings; floating
  point numbers are outside the model.
\<close>

datatype pyval = PNone | PBool bool | PInt int | PStr string

text \<open>Exceptions are values: \<open>Exception msg\<close> is a plain \<^verbatim>\<open>Exception(msg)\<close>.\<close>

datatype error = KeyError | TypeError | IndexError | Exception string

type_synonym 'a result = "error + 'a"

definition ebind :: "'a result \<Rightarrow> ('a \<Rightarrow> 'b result) \<Rightarrow> 'b result" where
  "ebind m f = (case m of Inl e \<Rightarrow> Inl e | Inr x \<Rightarrow> f x)"

text \<open>Truth value of an object, as \<^verbatim>\<open>if x\<close>, \<^verbatim>\<open>x or y\<close> and \<^verbatim>\<open>x and y\<close> test it.\<close>

fun truthy :: "pyval \<Rightarrow> bool" where
  "truthy PNone = False"
| "truthy (PBool b) = b"
| "truthy (PInt i) = (i \<noteq> 0)"
| "truthy (PStr s) = (s \<noteq> [])"

text \<open>The integer an arithmetic operand stands for (\<^verbatim>\<open>bool\<close> is a subclass of \<^verbatim>\<open>int\<close>).\<close>

fun num :: "pyval \<Rightarrow> int option" where
  "num (PInt i) = Some i"
| "num (PBool b) = Some (if b then 1 else 0)"
| "num PNone = None"
| "num (PStr s) = None"

text \<open>
  \<^verbatim>\<open>a >= b\<close> and \<^verbatim>\<open>a < b\<close>: numbers compare as integers, two strings
  lexicographically by character code, and any other pair of operands raises
  \<^verbatim>\<open>TypeError\<close>.
\<close>

fun py_ge :: "pyval \<Rightarrow> pyval \<Rightarrow> bool result" where
  "py_ge (PStr s) (PStr t) = Inr (t \<le> s)"
| "py_ge a b = (case (num a, num b) of (Some x, Some y) \<Rightarrow> Inr (y \<le> x) | _ \<Rightarrow> Inl TypeError)"

fun py_lt :: "pyval \<Rightarrow> pyval \<Rightarrow> bool result" where
  "py_lt (PStr s) (PStr t) = Inr (s < t)"
| "py_lt a b = (case (num a, num b) of (Some x, Some y) \<Rightarrow> Inr (x < y) | _ \<Rightarrow> Inl TypeError)"

text \<open>\<^verbatim>\<open>a - k\<close> for an integer literal \<open>k\<close>.\<close>

definition py_sub :: "pyval \<Rightarrow> int \<Rightarrow> pyval result" where
  "py_sub a k = (case num a of Some x \<Rightarrow> Inr (PInt (x - k)) | None \<Rightarrow> Inl TypeError)"

text \<open>
  A dictionary with string keys is a map; \<^verbatim>\<open>d[k]\<close> raises \<^verbatim>\<open>KeyError\<close> for a
  missing key, and for any key object that is not a string, since every key stored is one.
\<close>

type_synonym cfg_section = "string \<rightharpoonup> pyval"
type_synonym config = "string \<rightharpoonup> cfg_section"

definition getitem :: "(string \<rightharpoonup> 'a) \<Rightarrow> string \<Rightarrow> 'a result" where
  "getitem d k = (case d k of None \<Rightarrow> Inl KeyError | Some v \<Rightarrow> Inr v)"

definition getitem_val :: "(string \<rightharpoonup> 'a) \<Rightarrow> pyval \<Rightarrow> 'a result" where
  "getitem_val d k = (case k of PStr s \<Rightarrow> getitem d s | _ \<Rightarrow> Inl KeyError)"

definition get_default :: "cfg_section \<Rightarrow> string \<Rightarrow> pyval \<Rightarrow> pyval" where
  "get_default d k dflt = (case d k of None \<Rightarrow> dflt | Some v \<Rightarrow> v)"

text \<open>\<^verbatim>\<open>x or d[k]\<close>: the lookup is evaluated only when \<open>x\<close> is false.\<close>

definition or_getitem :: "pyval \<Rightarrow> cfg_section \<Rightarrow> string \<Rightarrow> pyval result" where
  "or_getitem x d k = (if truthy x then Inr x else getitem d k)"

text \<open>\<^verbatim>\<open>s in t\<close> for two strings: \<open>s\<close> occurs in \<open>t\<close> as a contiguous substring.\<close>

fun is_prefix :: "string \<Rightarrow> string \<Rightarrow> bool" where
  "is_prefix [] t = True"
| "is_prefix (c # s) [] = False"
| "is_prefix (c # s) (d # t) = (c = d \<and> is_prefix s t)"

fun str_contains :: "string \<Rightarrow> string \<Rightarrow> bool" where
  "str_contains [] s = (s = [])"
| "str_contains (d # t) s = (is_prefix s (d # t) \<or> str_contains t s)"

text \<open>
  \<^verbatim>\<open>m in S\<close> with \<open>S\<close> a string: a left operand that is not a string raises
  \<^verbatim>\<open>TypeError\<close>.
\<close>

definition in_str :: "pyval \<Rightarrow> string \<Rightarrow> bool result" where
  "in_str m S = (case m of PStr s \<Rightarrow> Inr (str_contains S s) | _ \<Rightarrow> Inl TypeError)"

subsection \<open>The text of a bytes object\<close>

text \<open>
  Serialized payloads are \<^verbatim>\<open>bytes\<close>, modelled as lists of 8-bit characters.
  \<^verbatim>\<open>str(b)\<close> of a bytes object is its literal: the prefix \<^verbatim>\<open>b\<close>, a quote
  (a double quote only when the data holds a single quote and no double quote), and the
  bytes with backslash, the quote, tab, newline and carriage return escaped in two
  characters and every other byte outside the printable ASCII range as
  \<^verbatim>\<open>\xNN\<close>.
\<close>

definition hex_digit :: "nat \<Rightarrow> char" where
  "hex_digit n = ''0123456789abcdef'' ! (n mod 16)"

definition bytes_quote :: "string \<Rightarrow> char" where
  "bytes_quote b = (if CHR 0x27 \<in> set b \<and> CHR 0x22 \<notin> set b then CHR 0x22 else CHR 0x27)"

definition repr_byte :: "char \<Rightarrow> char \<Rightarrow> string" where
  "repr_byte q c =
     (if c = q \<or> c = CHR 0x5C then [CHR 0x5C, c]
      else if c = CHR 0x09 then [CHR 0x5C, CHR ''t'']
      else if c = CHR 0x0A then [CHR 0x5C, CHR ''n'']
      else if c = CHR 0x0D then [CHR 0x5C, CHR ''r'']
      else if (of_char c :: nat) < 32 \<or> 127 \<le> (of_char c :: nat)
        then [CHR 0x5C, CHR ''x'', hex_digit (of_char c div 16), hex_digit (of_char c)]
      else [c])"

definition str_bytes :: "string \<Rightarrow> string" where
  "str_bytes b = (let q = bytes_quote b in CHR ''b'' # q # concat (map (repr_byte q) b) @ [q])"


section \<open>The job builder (\<^verbatim>\<open>lithops/job/job.py\<close>)\<close>

text \<open>
  Constants and helpers that the builder imports from modules outside the modelled files
  (\<^verbatim>\<open>lithops.constants\<close>, \<^verbatim>\<open>lithops.storage.utils\<close>, \<^verbatim>\<open>lithops.utils\<close>)
  are parameters of the model. The two key builders already have the jobs prefix applied.
\<close>

record env =
  MAX_AGG_DATA_SIZE :: pyval
  SERVERLESS :: string
  STANDALONE :: string
  LOCALHOST :: string
  FAAS_BACKENDS :: "string list"
  create_func_key :: "string \<Rightarrow> string \<Rightarrow> string"
  create_agg_data_key :: "string \<Rightarrow> string \<Rightarrow> string"
  func_key_suffix :: string
  agg_data :: "string list \<Rightarrow> string \<times> (nat \<times> nat) list"

text \<open>
  Modelled from the spec: \<^verbatim>\<open>create_job_key\<close> of \<^verbatim>\<open>lithops.storage.utils\<close> is
  not among the modelled files; the data model gives \<^verbatim>\<open>jobKey = executorId+jobId\<close>.
\<close>

definition create_job_key :: "string \<Rightarrow> string \<Rightarrow> string" where
  "create_job_key executor_id job_id = executor_id @ job_id"

text \<open>
  Effects on the collaborators are recorded as events, in the order the code performs
  them: uploads to storage, submissions to the compute backend, and the calls of the
  executor on its invoker, monitor, compute handler and cleaner files.
\<close>

datatype event =
    PutFunc string
  | StoreFuncLocal string
  | PutData string
  | RunJob string
  | InvokerStop
  | MonitorStop "string set"
  | ComputeClear "string set"
  | MakeCleanerDir
  | SaveCosToClean "string list"
  | SaveJobsToClean "string set" bool
  | SpawnCleaner
  | FetchResult nat

text \<open>
  The arguments of \<^verbatim>\<open>_create_job\<close>. The payload producer
  (\<^verbatim>\<open>SerializeIndependent\<close>) is an external collaborator: \<open>arg_data_strs\<close> is
  what it returns for the elements of \<^verbatim>\<open>iterdata\<close>, one bytes object per element, so
  \<^verbatim>\<open>len(iterdata)\<close> is the length of that list. The callable, the module lists and
  the extra environment only feed the producer and the uploaded payload and are left out.
\<close>

record job_args =
  arg_executor_id :: string
  arg_job_id :: string
  arg_data_strs :: "string list"
  arg_runtime_memory :: pyval
  arg_execution_timeout :: pyval
  arg_chunksize :: pyval
  arg_worker_processes :: pyval
  arg_invoke_pool_threads :: pyval

text \<open>
  The job descriptor (a \<^verbatim>\<open>SimpleNamespace\<close>). An attribute that some path never
  assigns is an option, \<open>None\<close> while unassigned; for \<open>data_key\<close> and
  \<open>data_byte_ranges\<close>, which every returning path assigns, \<open>None\<close> is Python's
  \<^verbatim>\<open>None\<close>. Timestamps and size metrics (\<^verbatim>\<open>job.metadata\<close>) are left out.
\<close>

record job =
  chunksize :: pyval
  worker_processes :: pyval
  execution_timeout :: pyval
  executor_id :: string
  job_id :: string
  job_key :: string
  total_calls :: nat
  invoke_pool_threads :: "pyval option"
  runtime_memory :: "pyval option"
  runtime_timeout :: "pyval option"
  func_key :: "string option"
  data_key :: "string option"
  data_byte_ranges :: "(nat \<times> nat) list option"
  data_byte_strs :: "string list option"
  parts_per_object :: "nat list option"

text \<open>\<^verbatim>\<open>config[s][k]\<close> and \<^verbatim>\<open>x or config[s][k]\<close>.\<close>

definition cfg_get :: "config \<Rightarrow> string \<Rightarrow> string \<Rightarrow> pyval result" where
  "cfg_get cfg s k = ebind (getitem cfg s) (\<lambda>d. getitem d k)"

definition or_cfg :: "pyval \<Rightarrow> config \<Rightarrow> string \<Rightarrow> string \<Rightarrow> pyval result" where
  "or_cfg x cfg s k = (if truthy x then Inr x else cfg_get cfg s k)"

text \<open>Lines 150 to 159: the attributes set before the mode is looked at.\<close>

definition job_init :: "config \<Rightarrow> job_args \<Rightarrow> job result" where
  "job_init cfg a =
     ebind (or_cfg (arg_chunksize a) cfg ''lithops'' ''chunksize'') (\<lambda>cs.
     ebind (or_cfg (arg_worker_processes a) cfg ''lithops'' ''worker_processes'') (\<lambda>wp.
     ebind (or_cfg (arg_execution_timeout a) cfg ''lithops'' ''execution_timeout'') (\<lambda>et.
       Inr \<lparr>chunksize = cs, worker_processes = wp, execution_timeout = et,
            executor_id = arg_executor_id a, job_id = arg_job_id a,
            job_key = create_job_key (arg_executor_id a) (arg_job_id a),
            total_calls = length (arg_data_strs a),
            invoke_pool_threads = None, runtime_memory = None, runtime_timeout = None,
            func_key = None, data_key = None, data_byte_ranges = None,
            data_byte_strs = None, parts_per_object = None\<rparr>)))"

text \<open>
  Lines 164 to 169, the serverless branch: the pool size, the memory and the backend's
  runtime timeout, and the clamp of the execution timeout five seconds below it.
\<close>

definition serverless_budget :: "config \<Rightarrow> job_args \<Rightarrow> pyval \<Rightarrow> job \<Rightarrow> job result" where
  "serverless_budget cfg a backend j =
     ebind (if truthy (arg_invoke_pool_threads a) then Inr (arg_invoke_pool_threads a)
            else ebind (getitem_val cfg backend)
                   (\<lambda>d. Inr (get_default d ''invoke_pool_threads'' (PInt 1)))) (\<lambda>ipt.
     ebind (if truthy (arg_runtime_memory a) then Inr (arg_runtime_memory a)
            else ebind (getitem_val cfg backend) (\<lambda>d. getitem d ''runtime_memory'')) (\<lambda>rm.
     ebind (ebind (getitem_val cfg backend) (\<lambda>d. getitem d ''runtime_timeout'')) (\<lambda>rt.
     ebind (py_ge (execution_timeout j) rt) (\<lambda>ge.
       let j1 = j\<lparr>invoke_pool_threads := Some ipt, runtime_memory := Some rm,
                   runtime_timeout := Some rt\<rparr>
       in if ge then ebind (py_sub rt 5) (\<lambda>et. Inr (j1\<lparr>execution_timeout := et\<rparr>))
          else Inr j1))))"

text \<open>
  Lines 171 to 175, the standalone branch: the limit is the hard dismantle timeout and
  the margin ten seconds; \<^verbatim>\<open>job.runtime_timeout\<close> stays unassigned.
\<close>

definition standalone_budget :: "env \<Rightarrow> config \<Rightarrow> job \<Rightarrow> job result" where
  "standalone_budget E cfg j =
     ebind (cfg_get cfg (STANDALONE E) ''hard_dismantle_timeout'') (\<lambda>rt.
     ebind (py_ge (execution_timeout j) rt) (\<lambda>ge.
       let j1 = j\<lparr>runtime_memory := Some PNone\<rparr>
       in if ge then ebind (py_sub rt 10) (\<lambda>et. Inr (j1\<lparr>execution_timeout := et\<rparr>))
          else Inr j1))"

text \<open>
  Lines 164 to 179. The second test is \<^verbatim>\<open>mode in STANDALONE\<close>, a substring test
  on the constant's text; a mode that matches no branch leaves the job as it is.
\<close>

definition apply_mode :: "env \<Rightarrow> config \<Rightarrow> job_args \<Rightarrow> pyval \<Rightarrow> pyval \<Rightarrow> job \<Rightarrow> job result" where
  "apply_mode E cfg a mode backend j =
     (if mode = PStr (SERVERLESS E) then serverless_budget cfg a backend j
      else ebind (in_str mode (STANDALONE E)) (\<lambda>sa.
        if sa then standalone_budget E cfg j
        else if mode = PStr (LOCALHOST E)
          then Inr (j\<lparr>runtime_memory := Some PNone,
                      runtime_timeout := Some (arg_execution_timeout a)\<rparr>)
        else Inr j))"

text \<open>Line 204: \<^verbatim>\<open>sum(len(x) for x in data_strs)\<close>.\<close>

definition data_size_bytes :: "string list \<Rightarrow> int" where
  "data_size_bytes data_strs = int (sum_list (map length data_strs))"

text \<open>
  Lines 214 to 222. The limit is the entry \<^verbatim>\<open>data_limit\<close> when the key is present
  and the constant otherwise; it is counted in MiB. A limit that is false (\<^verbatim>\<open>None\<close>,
  \<^verbatim>\<open>False\<close>, \<^verbatim>\<open>0\<close>) switches the check off. A string limit multiplied by an
  integer is a string, and comparing the integer size with it raises
  \<^verbatim>\<open>TypeError\<close>. The exception's message is abbreviated.
\<close>

definition check_data_limit :: "env \<Rightarrow> config \<Rightarrow> int \<Rightarrow> unit result" where
  "check_data_limit E cfg sz =
     ebind (getitem cfg ''lithops'') (\<lambda>l.
       let data_limit = (case l ''data_limit'' of Some v \<Rightarrow> v | None \<Rightarrow> MAX_AGG_DATA_SIZE E)
       in if truthy data_limit
          then (case num data_limit of
                  None \<Rightarrow> Inl TypeError
                | Some d \<Rightarrow> if sz > d * 1024 ^ 2
                            then Inl (Exception ''Total data exceeded maximum size'')
                            else Inr ())
          else Inr ())"

text \<open>Line 225: \<^verbatim>\<open>not config[mode].get('customized_runtime', False)\<close>.\<close>

definition upload_function :: "config \<Rightarrow> pyval \<Rightarrow> bool result" where
  "upload_function cfg mode =
     ebind (getitem_val cfg mode)
       (\<lambda>d. Inr (\<not> truthy (get_default d ''customized_runtime'' (PBool False))))"

text \<open>
  Line 226. \<^verbatim>\<open>data_strs[0]\<close> raises \<^verbatim>\<open>IndexError\<close> on an empty list; the
  product with a chunksize that is no number is no number, and its comparison with
  \<^verbatim>\<open>8*1204\<close> raises \<^verbatim>\<open>TypeError\<close>. The membership test is evaluated second and
  cannot raise.
\<close>

definition in_backends :: "pyval \<Rightarrow> string list \<Rightarrow> bool" where
  "in_backends backend bs = (case backend of PStr b \<Rightarrow> b \<in> set bs | _ \<Rightarrow> False)"

definition upload_data :: "env \<Rightarrow> pyval \<Rightarrow> pyval \<Rightarrow> string list \<Rightarrow> bool result" where
  "upload_data E backend cs data_strs =
     (case data_strs of
        [] \<Rightarrow> Inl IndexError
      | d # _ \<Rightarrow>
         (case num cs of
            None \<Rightarrow> Inl TypeError
          | Some c \<Rightarrow> Inr (\<not> (int (length (str_bytes d)) * c < 8 * 1204
                              \<and> in_backends backend (FAAS_BACKENDS E)))))"

text \<open>
  Lines 145 to 226: everything \<^verbatim>\<open>_create_job\<close> computes before it touches storage,
  in the order of the source. The result is the job so far and the two upload decisions.
\<close>

definition prepare_job :: "env \<Rightarrow> config \<Rightarrow> job_args \<Rightarrow> (job \<times> bool \<times> bool) result" where
  "prepare_job E cfg a =
     ebind (job_init cfg a) (\<lambda>j0.
     ebind (cfg_get cfg ''lithops'' ''mode'') (\<lambda>mode.
     ebind (cfg_get cfg ''lithops'' ''backend'') (\<lambda>backend.
     ebind (apply_mode E cfg a mode backend j0) (\<lambda>j.
     ebind (check_data_limit E cfg (data_size_bytes (arg_data_strs a))) (\<lambda>_.
     ebind (upload_function cfg mode) (\<lambda>uf.
     ebind (upload_data E backend (chunksize j) (arg_data_strs a)) (\<lambda>ud.
       Inr (j, uf, ud))))))))"

text \<open>
  Lines 228 to 272: the function is uploaded, or staged locally for a customized
  runtime; the data is uploaded as one aggregated object, or kept in the job.
\<close>

definition store_function :: "env \<Rightarrow> bool \<Rightarrow> job \<Rightarrow> event list \<times> job" where
  "store_function E uf j =
     (if uf
      then (let k = create_func_key E (executor_id j) (job_id j)
            in ([PutFunc k], j\<lparr>func_key := Some k\<rparr>))
      else ([StoreFuncLocal (func_key_suffix E)], j\<lparr>func_key := Some (func_key_suffix E)\<rparr>))"

definition store_data :: "env \<Rightarrow> bool \<Rightarrow> string list \<Rightarrow> job \<Rightarrow> event list \<times> job" where
  "store_data E ud data_strs j =
     (if ud
      then (let k = create_agg_data_key E (executor_id j) (job_id j)
            in ([PutData k],
                j\<lparr>data_key := Some k, data_byte_ranges := Some (snd (agg_data E data_strs))\<rparr>))
      else ([], j\<lparr>data_key := None, data_byte_ranges := None,
                   data_byte_strs := Some data_strs\<rparr>))"

text \<open>
  \<^verbatim>\<open>_create_job\<close>: the events it performs on storage, and the job or the exception.
  The storage calls themselves are taken to succeed.
\<close>

definition create_job :: "env \<Rightarrow> config \<Rightarrow> job_args \<Rightarrow> event list \<times> job result" where
  "create_job E cfg a =
     (case prepare_job E cfg a of
        Inl e \<Rightarrow> ([], Inl e)
      | Inr (j, uf, ud) \<Rightarrow>
          (let (ev1, j1) = store_function E uf j;
               (ev2, j2) = store_data E ud (arg_data_strs a) j1
           in (ev1 @ ev2, Inr j2)))"

text \<open>
  \<^verbatim>\<open>create_map_job\<close>. Argument checking and the object partitioner are external;
  \<open>ppo\<close> is the partitioner's list of per-object partition counts (\<open>None\<close> when the
  function does not process objects), and the arguments hold the serialized elements of
  the partitioned \<^verbatim>\<open>iterdata\<close>. The attribute is assigned only for a non-empty list.
\<close>

definition create_map_job ::
    "env \<Rightarrow> config \<Rightarrow> job_args \<Rightarrow> nat list option \<Rightarrow> event list \<times> job result" where
  "create_map_job E cfg a ppo =
     (case create_job E cfg a of
        (evs, Inl e) \<Rightarrow> (evs, Inl e)
      | (evs, Inr j) \<Rightarrow>
          (evs, Inr (case ppo of
                       Some (p # ps) \<Rightarrow> j\<lparr>parts_per_object := Some (p # ps)\<rparr>
                     | _ \<Rightarrow> j)))"


text \<open>
  \<^verbatim>\<open>create_reduce_job\<close>, lines 104 to 111. With per-object counts on the map job and
  \<^verbatim>\<open>reducer_one_per_object\<close> set, the loop cuts
  \<^verbatim>\<open>map_futures[prev:prev+total]\<close> for each count and advances \<^verbatim>\<open>prev\<close>; a
  slice that reaches past the end of the list is cut short, as \<open>take\<close> and \<open>drop\<close>
  are. Otherwise the only element is the whole list. Futures are named by their
  addresses; each element of \<^verbatim>\<open>iterdata\<close> is a one-element tuple, modelled by its
  component.
\<close>

fun reduce_slices :: "nat \<Rightarrow> nat list \<Rightarrow> 'a list \<Rightarrow> 'a list list" where
  "reduce_slices prev [] map_futures = []"
| "reduce_slices prev (total_partitions # rest) map_futures =
     take total_partitions (drop prev map_futures)
       # reduce_slices (prev + total_partitions) rest map_futures"

definition reduce_iterdata :: "job \<Rightarrow> bool \<Rightarrow> 'a list \<Rightarrow> 'a list list" where
  "reduce_iterdata map_job reducer_one_per_object map_futures =
     (case parts_per_object map_job of
        Some ppo \<Rightarrow>
          if reducer_one_per_object then reduce_slices 0 ppo map_futures else [map_futures]
      | None \<Rightarrow> [map_futures])"

text \<open>
  The rest of \<^verbatim>\<open>create_reduce_job\<close> hands the elements to \<^verbatim>\<open>_create_job\<close>, with
  the defaults of its optional parameters; \<open>ser\<close> is the payload producer on one
  element.
\<close>

definition create_reduce_job ::
    "env \<Rightarrow> config \<Rightarrow> (nat list \<Rightarrow> string) \<Rightarrow> string \<Rightarrow> string \<Rightarrow> job \<Rightarrow> nat list \<Rightarrow>
     pyval \<Rightarrow> bool \<Rightarrow> pyval \<Rightarrow> event list \<times> job result" where
  "create_reduce_job E cfg ser ex_id reduce_job_id map_job map_futures rt_memory
       reducer_one_per_object exec_timeout =
     create_job E cfg
       \<lparr>arg_executor_id = ex_id, arg_job_id = reduce_job_id,
        arg_data_strs = map ser (reduce_iterdata map_job reducer_one_per_object map_futures),
        arg_runtime_memory = rt_memory, arg_execution_timeout = exec_timeout,
        arg_chunksize = PNone, arg_worker_processes = PNone,
        arg_invoke_pool_threads = PInt 16\<rparr>"

section \<open>The executor (\<^verbatim>\<open>lithops/executors.py\<close>)\<close>

text \<open>
  Futures are shared objects: the executor's list, the lists a caller passes and the
  monitor refer to the same ones. They live in a heap indexed by addresses, and a
  list of futures is a list of addresses. \<open>fut_futures\<close> is the attribute
  \<^verbatim>\<open>futures\<close> of a Future (its nested child Futures) and \<open>fut_result\<close> the value that
  \<^verbatim>\<open>f.result(...)\<close> returns; fetching the result of a done Future is taken to succeed.
\<close>

record 'v future =
  fut_executor_id :: string
  fut_job_id :: string
  fut_job_key :: string
  fut_done :: bool
  fut_success :: bool
  fut_futures :: "nat list"
  fut_produce_output :: bool
  fut_read :: bool
  fut_result :: 'v

record 'v executor =
  ex_config :: config
  ex_executor_id :: string
  data_cleaner :: bool
  is_lithops_worker :: bool
  futures :: "nat list"
  cleaned_jobs :: "string set"
  total_jobs :: nat
  last_call :: "string option"
  heap :: "nat \<Rightarrow> 'v future"
  trace :: "event list"

definition emit :: "event \<Rightarrow> 'v executor \<Rightarrow> 'v executor" where
  "emit e s = s\<lparr>trace := trace s @ [e]\<rparr>"

text \<open>
  An optional list argument (\<^verbatim>\<open>fs=None\<close>, \<^verbatim>\<open>cs=None\<close>): \<^verbatim>\<open>None\<close> and the
  empty list are false. \<^verbatim>\<open>fs or self.futures\<close> picks the executor's own list then. A
  single Future passed for \<^verbatim>\<open>fs\<close> is wrapped into a one-element list by the code and
  is given as that list here.
\<close>

fun list_truthy :: "'a list option \<Rightarrow> bool" where
  "list_truthy None = False"
| "list_truthy (Some []) = False"
| "list_truthy (Some (x # xs)) = True"

fun or_list :: "'a list option \<Rightarrow> 'a list \<Rightarrow> 'a list" where
  "or_list (Some (x # xs)) ys = x # xs"
| "or_list fs ys = ys"

subsection \<open>Job identifiers\<close>

text \<open>\<^verbatim>\<open>str(n)\<close> for a non-negative integer, and \<^verbatim>\<open>s.zfill(w)\<close> for an unsigned text.\<close>

definition digit_char :: "nat \<Rightarrow> char" where
  "digit_char d = ''0123456789'' ! d"

fun str_nat :: "nat \<Rightarrow> string" where
  "str_nat n = (if n < 10 then [digit_char n] else str_nat (n div 10) @ [digit_char (n mod 10)])"

declare str_nat.simps [simp del]

definition zfill :: "nat \<Rightarrow> string \<Rightarrow> string" where
  "zfill w s = replicate (w - length s) CHR ''0'' @ s"

text \<open>\<^verbatim>\<open>_create_job_id\<close>: the identifier, and the executor with its counter advanced.\<close>

definition create_job_id :: "'v executor \<Rightarrow> string \<Rightarrow> string \<times> 'v executor" where
  "create_job_id s call_type =
     (call_type @ zfill 3 (str_nat (total_jobs s)), s\<lparr>total_jobs := total_jobs s + 1\<rparr>)"

text \<open>
  The identifiers that successive calls of \<^verbatim>\<open>_create_job_id\<close> return in one
  session, for the call types given. No other method of the executor writes the counter.
\<close>

fun job_ids :: "'v executor \<Rightarrow> string list \<Rightarrow> string list" where
  "job_ids s [] = []"
| "job_ids s (call_type # rest) =
     fst (create_job_id s call_type) # job_ids (snd (create_job_id s call_type)) rest"

text \<open>\<^verbatim>\<open>int(s)\<close> for a text of decimal digits, to read the counter back from an identifier.\<close>

definition digit_val :: "char \<Rightarrow> nat" where
  "digit_val c = of_char c - 48"

definition int_of_str :: "string \<Rightarrow> nat" where
  "int_of_str s = foldl (\<lambda>acc c. 10 * acc + digit_val c) 0 s"

subsection \<open>Cleaning\<close>

text \<open>
  \<^verbatim>\<open>clean\<close>, lines 504 to 535. Writing a file into the cleaner directory hands its
  content to the cleaner process (\<open>SaveCosToClean\<close>, \<open>SaveJobsToClean\<close>); the file
  operations are taken to succeed. Line 519 keeps the key of each Future of the list
  that is done and whose executor id holds exactly one dash, or of every Future when
  \<^verbatim>\<open>force\<close> is set.
\<close>

definition present_jobs :: "(nat \<Rightarrow> 'v future) \<Rightarrow> nat list \<Rightarrow> bool \<Rightarrow> string set" where
  "present_jobs h futs force =
     set (map (\<lambda>f. create_job_key (fut_executor_id (h f)) (fut_job_id (h f)))
            (filter (\<lambda>f. (count_list (fut_executor_id (h f)) CHR ''-'' = 1 \<and> fut_done (h f))
                          \<or> force) futs))"

definition clean ::
    "'v executor \<Rightarrow> nat list option \<Rightarrow> string list option \<Rightarrow> bool \<Rightarrow> bool \<Rightarrow> bool \<Rightarrow> 'v executor" where
  "clean s fs cs clean_cloudobjects spawn_cleaner force =
     (let s0 = emit MakeCleanerDir s;
          s1 = (if list_truthy cs then emit (SaveCosToClean (the cs)) s0 else s0)
      in if list_truthy cs \<and> \<not> list_truthy fs then s1
         else
           (let futs = or_list fs (futures s1);
                jobs_to_clean = present_jobs (heap s1) futs force - cleaned_jobs s1;
                s2 = (if jobs_to_clean \<noteq> {}
                      then (emit (SaveJobsToClean jobs_to_clean clean_cloudobjects) s1)
                             \<lparr>cleaned_jobs := cleaned_jobs s1 \<union> jobs_to_clean\<rparr>
                      else s1)
            in if (jobs_to_clean \<noteq> {} \<or> list_truthy cs) \<and> spawn_cleaner
               then emit SpawnCleaner s2 else s2))"

subsection \<open>Waiting\<close>

text \<open>
  The wait engine (\<^verbatim>\<open>lithops.wait.wait\<close>) is external. Given the futures to wait
  for and the heap, it answers with the exception it raises, if any, and with the heap
  as the wait left it. Only exceptions that \<^verbatim>\<open>except Exception\<close> catches are
  modelled.
\<close>

type_synonym 'v waiter = "nat list \<Rightarrow> (nat \<Rightarrow> 'v future) \<Rightarrow> error option \<times> (nat \<Rightarrow> 'v future)"

text \<open>The \<^verbatim>\<open>finally\<close> block of \<^verbatim>\<open>wait\<close>, lines 410 to 415.\<close>

definition wait_finally :: "'v executor \<Rightarrow> nat list \<Rightarrow> 'v executor" where
  "wait_finally s futs =
     (let pj = set (map (\<lambda>f. fut_job_key (heap s f)) futs);
          s1 = emit (MonitorStop pj) s
      in if data_cleaner s1 \<and> \<not> is_lithops_worker s1
         then clean (emit (ComputeClear pj) s1) None None False True False
         else s1)"

text \<open>
  The handler of \<^verbatim>\<open>wait\<close>, lines 402 to 408. Without \<^verbatim>\<open>fs\<close> the local
  \<^verbatim>\<open>futures\<close> is the executor's own list object, so in a notebook the deletion
  empties both; the handler returns the list that the \<^verbatim>\<open>finally\<close> block then sees.
\<close>

definition wait_except :: "bool \<Rightarrow> 'v executor \<Rightarrow> nat list option \<Rightarrow> nat list \<Rightarrow> 'v executor \<times> nat list" where
  "wait_except notebook s fs futs =
     (let s1 = emit InvokerStop s;
          del = (\<not> list_truthy fs \<and> notebook);
          s2 = (if del
                then s1\<lparr>futures := take (length (futures s1) - length futs) (futures s1)\<rparr>
                else s1);
          futs' = (if del then futures s2 else futs);
          s3 = (if data_cleaner s2 \<and> \<not> is_lithops_worker s2
                then clean s2 None None False True True else s2)
      in (s3, futs'))"

text \<open>
  \<^verbatim>\<open>FunctionExecutor.wait\<close>: the exception that leaves the call, or the pair of the
  done and the not done futures; and the executor afterwards.
\<close>

definition wait ::
    "'v waiter \<Rightarrow> bool \<Rightarrow> 'v executor \<Rightarrow> nat list option \<Rightarrow> bool \<Rightarrow>
     (nat list \<times> nat list) result \<times> 'v executor" where
  "wait W notebook s fs download_results =
     (let futs = or_list fs (futures s);
          (exn, h) = W futs (heap s);
          s1 = s\<lparr>heap := h\<rparr>
      in case exn of
           Some e \<Rightarrow>
             (let (s2, futs') = wait_except notebook s1 fs futs
              in (Inl e, wait_finally s2 futs'))
         | None \<Rightarrow>
             (let s2 = wait_finally s1 futs;
                  fs_done = (if download_results
                             then filter (\<lambda>f. fut_done (heap s2 f)) futs
                             else filter (\<lambda>f. fut_success (heap s2 f) \<or> fut_done (heap s2 f)) futs);
                  fs_notdone = (if download_results
                                then filter (\<lambda>f. \<not> fut_done (heap s2 f)) futs
                                else filter (\<lambda>f. \<not> fut_success (heap s2 f) \<and> \<not> fut_done (heap s2 f)) futs)
              in (Inr (fs_done, fs_notdone), s2)))"

subsection \<open>Results\<close>

text \<open>
  The loop of \<^verbatim>\<open>get_result\<close>, lines 445 to 454: \<open>given\<close> is the truth value of
  \<^verbatim>\<open>fs\<close>. Each call of \<^verbatim>\<open>f.result\<close> is recorded as \<open>FetchResult f\<close>.
\<close>

fun collect_results :: "bool \<Rightarrow> nat list \<Rightarrow> 'v list \<Rightarrow> 'v executor \<Rightarrow> 'v list \<times> 'v executor" where
  "collect_results given [] res s = (res, s)"
| "collect_results given (f # rest) res s =
     (if given
      then collect_results given rest (res @ [fut_result (heap s f)]) (emit (FetchResult f) s)
      else if \<not> fut_read (heap s f)
      then collect_results given rest (res @ [fut_result (heap s f)])
             ((emit (FetchResult f) s)\<lparr>heap := (heap s)(f := (heap s f)\<lparr>fut_read := True\<rparr>)\<rparr>)
      else collect_results given rest res s)"

text \<open>
  The Futures of a list that are unread when the loop reaches them, in order: with the
  flags \<open>rd\<close> at the start, a Future is taken at its first occurrence and counts as
  read from then on.
\<close>

fun unread :: "(nat \<Rightarrow> bool) \<Rightarrow> nat list \<Rightarrow> nat list" where
  "unread rd [] = []"
| "unread rd (f # rest) = (if rd f then unread rd rest else f # unread (rd(f := True)) rest)"

text \<open>
  The Futures of a list whose results \<^verbatim>\<open>get_result\<close> may deliver, by line 418 and
  line 444: done, without nested child Futures, and producing output.
\<close>

definition deliverable :: "(nat \<Rightarrow> 'v future) \<Rightarrow> nat list \<Rightarrow> nat list" where
  "deliverable h futs =
     filter (\<lambda>f. fut_futures (h f) = [] \<and> fut_produce_output (h f))
       (filter (\<lambda>f. fut_done (h f)) futs)"

text \<open>What \<^verbatim>\<open>get_result\<close> returns: one bare value, or the list of results.\<close>

datatype 'v returned = Bare 'v | Results "'v list"

definition get_result ::
    "'v waiter \<Rightarrow> bool \<Rightarrow> 'v executor \<Rightarrow> nat list option \<Rightarrow> 'v returned result \<times> 'v executor" where
  "get_result W notebook s fs =
     (case wait W notebook s fs True of
        (Inl e, s1) \<Rightarrow> (Inl e, s1)
      | (Inr (fs_done, fs_notdone), s1) \<Rightarrow>
          (let fs_done' = filter (\<lambda>f. fut_futures (heap s1 f) = [] \<and> fut_produce_output (heap s1 f))
                            fs_done;
               (res, s2) = collect_results (list_truthy fs) fs_done' [] s1
           in (Inr (if length res = 1 \<and> last_call s2 \<noteq> Some ''map''
                    then Bare (hd res) else Results res), s2)))"

subsection \<open>Submitting jobs\<close>

text \<open>
  \<^verbatim>\<open>invoker.run_job\<close> is external: for a job and the heap it answers with the
  addresses of the Futures it created and the heap that holds them. Selecting the
  runtime, also external, is taken to succeed.
\<close>

type_synonym 'v runner = "job \<Rightarrow> (nat \<Rightarrow> 'v future) \<Rightarrow> nat list \<times> (nat \<Rightarrow> 'v future)"

text \<open>
  The arguments of \<^verbatim>\<open>call_async\<close> and \<^verbatim>\<open>map\<close> that the model follows:
  the serialized input elements, the partitioner's counts, the Futures of the input
  when it is a \<^verbatim>\<open>FuturesList\<close>, and the budget options.
\<close>

record call_args =
  call_data_strs :: "string list"
  call_ppo :: "nat list option"
  call_input_futures :: "nat list option"
  call_runtime_memory :: pyval
  call_timeout :: pyval
  call_chunksize :: pyval
  call_worker_processes :: pyval
  call_invoke_pool_threads :: pyval

text \<open>
  The common tail of both methods: run the job that was built and remember its
  Futures; an exception of the builder leaves the method before the invoker is called.
\<close>

definition submit ::
    "'v runner \<Rightarrow> 'v executor \<Rightarrow> event list \<times> job result \<Rightarrow> nat list result \<times> 'v executor" where
  "submit R s built =
     (case built of
        (evs, Inl e) \<Rightarrow> (Inl e, s\<lparr>trace := trace s @ evs\<rparr>)
      | (evs, Inr j) \<Rightarrow>
          (let (new, h) = R j (heap s)
           in (Inr new, s\<lparr>trace := trace s @ evs @ [RunJob (job_key j)], heap := h,
                          futures := futures s @ new\<rparr>)))"

text \<open>\<^verbatim>\<open>call_async\<close>: the input is the one element \<^verbatim>\<open>[data]\<close>; the result is Future 0 of the job.\<close>

definition call_async ::
    "env \<Rightarrow> 'v runner \<Rightarrow> 'v executor \<Rightarrow> call_args \<Rightarrow> nat result \<times> 'v executor" where
  "call_async E R s c =
     (let (jid, s1) = create_job_id s ''A'';
          s2 = s1\<lparr>last_call := Some ''call_async''\<rparr>;
          built = create_map_job E (ex_config s2)
                    \<lparr>arg_executor_id = ex_executor_id s2, arg_job_id = jid,
                     arg_data_strs = call_data_strs c,
                     arg_runtime_memory = call_runtime_memory c,
                     arg_execution_timeout = call_timeout c,
                     arg_chunksize = PNone, arg_worker_processes = PNone,
                     arg_invoke_pool_threads = PInt 16\<rparr> (call_ppo c)
      in case submit R s2 built of
           (Inl e, s3) \<Rightarrow> (Inl e, s3)
         | (Inr new, s3) \<Rightarrow>
             (case new of [] \<Rightarrow> (Inl IndexError, s3) | f # _ \<Rightarrow> (Inr f, s3)))"

text \<open>
  \<^verbatim>\<open>map\<close>. After the submission the Futures of an input \<^verbatim>\<open>FuturesList\<close> stop
  producing output.
\<close>

definition map_fn ::
    "env \<Rightarrow> 'v runner \<Rightarrow> 'v executor \<Rightarrow> call_args \<Rightarrow> nat list result \<times> 'v executor" where
  "map_fn E R s c =
     (let (jid, s1) = create_job_id s ''M'';
          s2 = s1\<lparr>last_call := Some ''map''\<rparr>;
          built = create_map_job E (ex_config s2)
                    \<lparr>arg_executor_id = ex_executor_id s2, arg_job_id = jid,
                     arg_data_strs = call_data_strs c,
                     arg_runtime_memory = call_runtime_memory c,
                     arg_execution_timeout = call_timeout c,
                     arg_chunksize = call_chunksize c,
                     arg_worker_processes = call_worker_processes c,
                     arg_invoke_pool_threads = call_invoke_pool_threads c\<rparr> (call_ppo c)
      in case submit R s2 built of
           (Inl e, s3) \<Rightarrow> (Inl e, s3)
         | (Inr new, s3) \<Rightarrow>
             (Inr new,
              s3\<lparr>heap := fold (\<lambda>f h. h(f := (h f)\<lparr>fut_produce_output := False\<rparr>))
                           (or_list (call_input_futures c) []) (heap s3)\<rparr>))"

subsection \<open>Reading traces and following sessions\<close>

text \<open>
  The events that a call appends to the trace, the job keys that these events hand to
  the cleaner process, and the Futures whose results they fetch, in order.
\<close>

definition new_events :: "'v executor \<Rightarrow> 'v executor \<Rightarrow> event list" where
  "new_events s t = drop (length (trace s)) (trace t)"

fun jobs_handed :: "event list \<Rightarrow> string set" where
  "jobs_handed [] = {}"
| "jobs_handed (SaveJobsToClean J b # es) = J \<union> jobs_handed es"
| "jobs_handed (e # es) = jobs_handed es"

fun fetched :: "event list \<Rightarrow> nat list" where
  "fetched [] = []"
| "fetched (FetchResult f # es) = f # fetched es"
| "fetched (e # es) = fetched es"

text \<open>
  The states a session can be in after a given state: any number of calls of the
  modelled methods, with any arguments and any behaviour of the collaborators, and of
  updates of the Futures by the monitor in between.
\<close>

inductive later :: "'v executor \<Rightarrow> 'v executor \<Rightarrow> bool" where
  later_refl: "later s s"
| later_clean: "later s t \<Longrightarrow> later s (clean t fs cs clean_cloudobjects spawn_cleaner force)"
| later_wait: "later s t \<Longrightarrow> later s (snd (wait W notebook t fs download_results))"
| later_get_result: "later s t \<Longrightarrow> later s (snd (get_result W notebook t fs))"
| later_map: "later s t \<Longrightarrow> later s (snd (map_fn E R t c))"
| later_call_async: "later s t \<Longrightarrow> later s (snd (call_async E R t c))"
| later_monitor: "later s t \<Longrightarrow> later s (t\<lparr>heap := h\<rparr>)"

section \<open>A concrete deployment\<close>

text \<open>
  An environment with the values of the lithops distribution, a configuration with one
  FaaS backend and one standalone backend, and arguments of a job build. They serve as
  the concrete inputs of the checks below.
\<close>

definition demo_env :: env where
  "demo_env = \<lparr>MAX_AGG_DATA_SIZE = PInt 4, SERVERLESS = ''serverless'',
     STANDALONE = ''standalone'', LOCALHOST = ''localhost'',
     FAAS_BACKENDS = [''ibm_cf'', ''aws_lambda''],
     create_func_key = (\<lambda>e j. ''lithops.jobs/'' @ e @ ''/'' @ j @ ''/func.pickle''),
     create_agg_data_key = (\<lambda>e j. ''lithops.jobs/'' @ e @ ''/'' @ j @ ''/aggdata.pickle''),
     func_key_suffix = ''func.pickle'',
     agg_data = (\<lambda>ds. (concat ds, []))\<rparr>"

definition demo_config :: "pyval \<Rightarrow> string \<Rightarrow> cfg_section \<Rightarrow> config" where
  "demo_config mode backend extra =
     [''lithops'' \<mapsto> ([''mode'' \<mapsto> mode, ''backend'' \<mapsto> PStr backend,
          ''chunksize'' \<mapsto> PInt 1, ''worker_processes'' \<mapsto> PInt 1,
          ''execution_timeout'' \<mapsto> PInt 1800] ++ extra),
      ''serverless'' \<mapsto> Map.empty,
      ''localhost'' \<mapsto> Map.empty,
      ''ibm_cf'' \<mapsto> [''runtime_memory'' \<mapsto> PInt 256, ''runtime_timeout'' \<mapsto> PInt 600],
      ''standalone'' \<mapsto> [''hard_dismantle_timeout'' \<mapsto> PInt 3600],
      ''ibm_vpc'' \<mapsto> Map.empty]"

definition demo_args :: "string list \<Rightarrow> pyval \<Rightarrow> job_args" where
  "demo_args ds t = \<lparr>arg_executor_id = ''e1-0'', arg_job_id = ''M000'', arg_data_strs = ds,
     arg_runtime_memory = PNone, arg_execution_timeout = t, arg_chunksize = PNone,
     arg_worker_processes = PNone, arg_invoke_pool_threads = PNone\<rparr>"


text \<open>
  An executor session with three Futures: two of the map job \<open>M000\<close>, the first done
  and the second still running, and one of the job \<open>A001\<close> whose result was read.
\<close>

definition demo_future :: "string \<Rightarrow> bool \<Rightarrow> bool \<Rightarrow> nat \<Rightarrow> nat future" where
  "demo_future jid dn rd v =
     \<lparr>fut_executor_id = ''e1-0'', fut_job_id = jid, fut_job_key = create_job_key ''e1-0'' jid,
      fut_done = dn, fut_success = dn, fut_futures = [], fut_produce_output = True,
      fut_read = rd, fut_result = v\<rparr>"

definition demo_heap :: "nat \<Rightarrow> nat future" where
  "demo_heap = (\<lambda>_. demo_future ''M000'' False False 0)
     (0 := demo_future ''M000'' True False 10,
      1 := demo_future ''M000'' False False 11,
      2 := demo_future ''A001'' True True 12)"

definition demo_executor :: "config \<Rightarrow> nat list \<Rightarrow> nat executor" where
  "demo_executor cfg fs =
     \<lparr>ex_config = cfg, ex_executor_id = ''e1-0'', data_cleaner = True,
      is_lithops_worker = False, futures = fs, cleaned_jobs = {}, total_jobs = 2,
      last_call = Some ''map'', heap = demo_heap, trace = []\<rparr>"

definition demo_runner :: "nat runner" where
  "demo_runner j h = ([3], h)"

definition demo_call :: "string list \<Rightarrow> call_args" where
  "demo_call ds =
     \<lparr>call_data_strs = ds, call_ppo = None, call_input_futures = None,
      call_runtime_memory = PNone, call_timeout = PNone, call_chunksize = PNone,
      call_worker_processes = PNone, call_invoke_pool_threads = PNone\<rparr>"

text \<open>A map job over stored objects, as \<^verbatim>\<open>create_map_job\<close> returns it.\<close>

definition demo_map_job :: "nat list \<Rightarrow> job" where
  "demo_map_job ppo =
     \<lparr>chunksize = PInt 1, worker_processes = PInt 1, execution_timeout = PInt 595,
      executor_id = ''e1-0'', job_id = ''M000'', job_key = ''e1-0M000'',
      total_calls = sum_list ppo, invoke_pool_threads = Some (PInt 1),
      runtime_memory = Some (PInt 256), runtime_timeout = Some (PInt 600),
      func_key = Some ''lithops.jobs/e1-0/M000/func.pickle'',
      data_key = None, data_byte_ranges = None, data_byte_strs = Some [],
      parts_per_object = Some ppo\<rparr>"

text \<open>A wait that returns at once and leaves the Futures as they are, and one that raises.\<close>

definition demo_waiter :: "nat waiter" where
  "demo_waiter futs h = (None, h)"

definition demo_failing_waiter :: "nat waiter" where
  "demo_failing_waiter futs h = (Some (Exception ''remote call failed''), h)"

section \<open>Properties of the job builder\<close>

subsection \<open>Exceptions and comparisons\<close>

lemma ebind_eq_Inr: "ebind m f = Inr y \<longleftrightarrow> (\<exists>x. m = Inr x \<and> f x = Inr y)"
  by (cases m) (auto simp: ebind_def)

lemma ebind_Inr [simp]: "ebind (Inr x) f = f x"
  by (simp add: ebind_def)

lemma ebind_Inl [simp]: "ebind (Inl e) f = Inl e"
  by (simp add: ebind_def)

lemma py_ge_False_lt: "py_ge a b = Inr False \<Longrightarrow> py_lt a b = Inr True"
  by (cases a; cases b) (auto split: if_splits)

lemma py_sub_lt: "py_sub rt k = Inr x \<Longrightarrow> 0 < k \<Longrightarrow> py_lt x rt = Inr True"
  by (cases rt) (auto simp: py_sub_def split: if_splits)

lemma py_ge_cases: "py_ge a b = Inr g \<Longrightarrow> g \<or> py_ge a b = Inr False"
  by auto

lemma prepare_job_Inr:
  "prepare_job E cfg a = Inr (j, uf, ud) \<longleftrightarrow>
     (\<exists>j0 mode backend.
        job_init cfg a = Inr j0 \<and>
        cfg_get cfg ''lithops'' ''mode'' = Inr mode \<and>
        cfg_get cfg ''lithops'' ''backend'' = Inr backend \<and>
        apply_mode E cfg a mode backend j0 = Inr j \<and>
        check_data_limit E cfg (data_size_bytes (arg_data_strs a)) = Inr () \<and>
        upload_function cfg mode = Inr uf \<and>
        upload_data E backend (chunksize j) (arg_data_strs a) = Inr ud)"
  by (auto simp: prepare_job_def ebind_eq_Inr)

lemma create_job_Inr:
  "create_job E cfg a = (evs, Inr j) \<longleftrightarrow>
     (\<exists>j' uf ud. prepare_job E cfg a = Inr (j', uf, ud) \<and>
        evs = fst (store_function E uf j') @ fst (store_data E ud (arg_data_strs a) (snd (store_function E uf j'))) \<and>
        j = snd (store_data E ud (arg_data_strs a) (snd (store_function E uf j'))))"
  by (auto simp: create_job_def split: sum.splits prod.splits)

lemma store_keeps_budget:
  "execution_timeout (snd (store_data E ud ds (snd (store_function E uf j)))) = execution_timeout j"
  "runtime_timeout (snd (store_data E ud ds (snd (store_function E uf j)))) = runtime_timeout j"
  "chunksize (snd (store_data E ud ds (snd (store_function E uf j)))) = chunksize j"
  "total_calls (snd (store_data E ud ds (snd (store_function E uf j)))) = total_calls j"
  "job_key (snd (store_data E ud ds (snd (store_function E uf j)))) = job_key j"
  by (simp_all add: store_data_def store_function_def Let_def)

lemma job_init_timeout:
  "job_init cfg a = Inr j0 \<Longrightarrow>
     or_cfg (arg_execution_timeout a) cfg ''lithops'' ''execution_timeout'' = Inr (execution_timeout j0)"
  by (auto simp: job_init_def ebind_eq_Inr)


subsection \<open>The timeout budget\<close>

lemma serverless_budget_Inr:
  "serverless_budget cfg a backend j0 = Inr j \<Longrightarrow>
     \<exists>rt ge. ebind (getitem_val cfg backend) (\<lambda>d. getitem d ''runtime_timeout'') = Inr rt
        \<and> py_ge (execution_timeout j0) rt = Inr ge
        \<and> runtime_timeout j = Some rt
        \<and> (if ge then py_sub rt 5 = Inr (execution_timeout j)
            else execution_timeout j = execution_timeout j0)"
  unfolding serverless_budget_def Let_def ebind_eq_Inr
  by (elim exE conjE) (auto split: if_splits simp: ebind_eq_Inr)

lemma serverless_budget_clamp:
  assumes "serverless_budget cfg a backend j0 = Inr j"
  shows "\<exists>rt. ebind (getitem_val cfg backend) (\<lambda>d. getitem d ''runtime_timeout'') = Inr rt
           \<and> runtime_timeout j = Some rt
           \<and> (py_ge (execution_timeout j0) rt = Inr True \<longrightarrow> py_sub rt 5 = Inr (execution_timeout j))
           \<and> (py_ge (execution_timeout j0) rt = Inr False \<longrightarrow> execution_timeout j = execution_timeout j0)
           \<and> py_lt (execution_timeout j) rt = Inr True"
proof -
  from serverless_budget_Inr [OF assms] obtain rt ge where
    rt: "ebind (getitem_val cfg backend) (\<lambda>d. getitem d ''runtime_timeout'') = Inr rt"
    and ge: "py_ge (execution_timeout j0) rt = Inr ge"
    and rtj: "runtime_timeout j = Some rt"
    and et: "if ge then py_sub rt 5 = Inr (execution_timeout j)
             else execution_timeout j = execution_timeout j0"
    by blast
  show ?thesis
  proof (cases ge)
    case True
    with et have "py_sub rt 5 = Inr (execution_timeout j)" by simp
    then show ?thesis using rt rtj ge True py_sub_lt [of rt 5 "execution_timeout j"] by auto
  next
    case False
    with et have "execution_timeout j = execution_timeout j0" by simp
    then show ?thesis using rt rtj ge False py_ge_False_lt [of "execution_timeout j0" rt] by auto
  qed
qed

lemma standalone_budget_Inr:
  "standalone_budget E cfg j0 = Inr j \<Longrightarrow>
     \<exists>rt ge. cfg_get cfg (STANDALONE E) ''hard_dismantle_timeout'' = Inr rt
        \<and> py_ge (execution_timeout j0) rt = Inr ge
        \<and> (if ge then py_sub rt 10 = Inr (execution_timeout j)
            else execution_timeout j = execution_timeout j0)"
  unfolding standalone_budget_def Let_def ebind_eq_Inr
  by (elim exE conjE) (auto split: if_splits simp: ebind_eq_Inr)

lemma standalone_budget_clamp:
  assumes "standalone_budget E cfg j0 = Inr j"
  shows "\<exists>rt. cfg_get cfg (STANDALONE E) ''hard_dismantle_timeout'' = Inr rt
           \<and> (py_ge (execution_timeout j0) rt = Inr True \<longrightarrow> py_sub rt 10 = Inr (execution_timeout j))
           \<and> (py_ge (execution_timeout j0) rt = Inr False \<longrightarrow> execution_timeout j = execution_timeout j0)
           \<and> py_lt (execution_timeout j) rt = Inr True"
proof -
  from standalone_budget_Inr [OF assms] obtain rt ge where
    rt: "cfg_get cfg (STANDALONE E) ''hard_dismantle_timeout'' = Inr rt"
    and ge: "py_ge (execution_timeout j0) rt = Inr ge"
    and et: "if ge then py_sub rt 10 = Inr (execution_timeout j)
             else execution_timeout j = execution_timeout j0"
    by blast
  show ?thesis
  proof (cases ge)
    case True
    with et have "py_sub rt 10 = Inr (execution_timeout j)" by simp
    then show ?thesis using rt ge True py_sub_lt [of rt 10 "execution_timeout j"] by auto
  next
    case False
    with et have "execution_timeout j = execution_timeout j0" by simp
    then show ?thesis using rt ge False py_ge_False_lt [of "execution_timeout j0" rt] by auto
  qed
qed


lemmas builder_defs = create_job_def prepare_job_def job_init_def or_cfg_def cfg_get_def
  getitem_def getitem_val_def get_default_def apply_mode_def serverless_budget_def standalone_budget_def
  in_str_def check_data_limit_def data_size_bytes_def upload_function_def upload_data_def
  in_backends_def store_function_def store_data_def py_sub_def str_bytes_def bytes_quote_def
  repr_byte_def hex_digit_def create_job_key_def demo_env_def demo_config_def demo_args_def Let_def




text \<open>
  C3. Whenever \<^verbatim>\<open>_create_job\<close> returns a job, with \<open>req\<close> the requested execution
  timeout (the argument, or the configured default when the argument is false): in
  serverless mode, if \<open>req\<close> is greater than or equal to the backend's runtime timeout
  the job's execution timeout is that timeout minus 5, otherwise it is \<open>req\<close>, and in
  both cases it is strictly less than the runtime timeout; in standalone mode (the mode
  is not the serverless one and occurs in the standalone constant) the same holds with the
  hard dismantle timeout and a margin of 10.
\<close>

theorem execution_timeout_clamped:
  assumes built: "create_job E cfg a = (evs, Inr j)"
    and mode: "cfg_get cfg ''lithops'' ''mode'' = Inr mode"
  shows "\<exists>req. or_cfg (arg_execution_timeout a) cfg ''lithops'' ''execution_timeout'' = Inr req \<and>
     (mode = PStr (SERVERLESS E) \<longrightarrow>
        (\<exists>backend rt. cfg_get cfg ''lithops'' ''backend'' = Inr backend
           \<and> ebind (getitem_val cfg backend) (\<lambda>d. getitem d ''runtime_timeout'') = Inr rt
           \<and> runtime_timeout j = Some rt
           \<and> (py_ge req rt = Inr True \<longrightarrow> py_sub rt 5 = Inr (execution_timeout j))
           \<and> (py_ge req rt = Inr False \<longrightarrow> execution_timeout j = req)
           \<and> py_lt (execution_timeout j) rt = Inr True)) \<and>
     (mode \<noteq> PStr (SERVERLESS E) \<and> in_str mode (STANDALONE E) = Inr True \<longrightarrow>
        (\<exists>rt. cfg_get cfg (STANDALONE E) ''hard_dismantle_timeout'' = Inr rt
           \<and> (py_ge req rt = Inr True \<longrightarrow> py_sub rt 10 = Inr (execution_timeout j))
           \<and> (py_ge req rt = Inr False \<longrightarrow> execution_timeout j = req)
           \<and> py_lt (execution_timeout j) rt = Inr True))"
proof -
  from built obtain j' uf ud where prep: "prepare_job E cfg a = Inr (j', uf, ud)"
    and et: "execution_timeout j = execution_timeout j'"
    and rt: "runtime_timeout j = runtime_timeout j'"
    unfolding create_job_Inr by (auto simp: store_keeps_budget)
  from prep mode obtain j0 backend where init: "job_init cfg a = Inr j0"
    and backend: "cfg_get cfg ''lithops'' ''backend'' = Inr backend"
    and am: "apply_mode E cfg a mode backend j0 = Inr j'"
    unfolding prepare_job_Inr by auto
  have req: "or_cfg (arg_execution_timeout a) cfg ''lithops'' ''execution_timeout''
               = Inr (execution_timeout j0)"
    using init by (rule job_init_timeout)
  have serverless: "\<exists>backend rt. cfg_get cfg ''lithops'' ''backend'' = Inr backend
           \<and> ebind (getitem_val cfg backend) (\<lambda>d. getitem d ''runtime_timeout'') = Inr rt
           \<and> runtime_timeout j = Some rt
           \<and> (py_ge (execution_timeout j0) rt = Inr True \<longrightarrow> py_sub rt 5 = Inr (execution_timeout j))
           \<and> (py_ge (execution_timeout j0) rt = Inr False \<longrightarrow> execution_timeout j = execution_timeout j0)
           \<and> py_lt (execution_timeout j) rt = Inr True"
    if "mode = PStr (SERVERLESS E)"
  proof -
    from am that have "serverless_budget cfg a backend j0 = Inr j'"
      by (simp add: apply_mode_def)
    from serverless_budget_clamp [OF this] backend show ?thesis
      unfolding et rt by blast
  qed
  have standalone: "\<exists>rt. cfg_get cfg (STANDALONE E) ''hard_dismantle_timeout'' = Inr rt
           \<and> (py_ge (execution_timeout j0) rt = Inr True \<longrightarrow> py_sub rt 10 = Inr (execution_timeout j))
           \<and> (py_ge (execution_timeout j0) rt = Inr False \<longrightarrow> execution_timeout j = execution_timeout j0)
           \<and> py_lt (execution_timeout j) rt = Inr True"
    if "mode \<noteq> PStr (SERVERLESS E)" and "in_str mode (STANDALONE E) = Inr True"
  proof -
    from am that have "standalone_budget E cfg j0 = Inr j'"
      by (simp add: apply_mode_def)
    from standalone_budget_clamp [OF this] show ?thesis
      unfolding et by blast
  qed
  from req serverless standalone show ?thesis by blast
qed

theorem execution_timeout_clamped_witness:
  "(\<exists>evs j. create_job demo_env (demo_config (PStr ''serverless'') ''ibm_cf'' Map.empty)
               (demo_args [''abc''] PNone) = (evs, Inr j)
        \<and> execution_timeout j = PInt 595 \<and> runtime_timeout j = Some (PInt 600)
        \<and> py_lt (execution_timeout j) (PInt 600) = Inr True)
   \<and> (\<exists>evs j. create_job demo_env (demo_config (PStr ''standalone'') ''ibm_vpc'' Map.empty)
               (demo_args [''abc''] (PInt 4000)) = (evs, Inr j)
        \<and> execution_timeout j = PInt 3590
        \<and> py_lt (execution_timeout j) (PInt 3600) = Inr True)"
proof -
  let ?c1 = "demo_config (PStr ''serverless'') ''ibm_cf'' Map.empty"
  let ?c2 = "demo_config (PStr ''standalone'') ''ibm_vpc'' Map.empty"
  obtain evs1 j1 where b1: "create_job demo_env ?c1 (demo_args [''abc''] PNone) = (evs1, Inr j1)"
    by (simp add: builder_defs)
  obtain evs2 j2 where b2: "create_job demo_env ?c2 (demo_args [''abc''] (PInt 4000)) = (evs2, Inr j2)"
    by (simp add: builder_defs)
  have m1: "cfg_get ?c1 ''lithops'' ''mode'' = Inr (PStr ''serverless'')"
    by (simp add: builder_defs)
  have m2: "cfg_get ?c2 ''lithops'' ''mode'' = Inr (PStr ''standalone'')"
    by (simp add: builder_defs)
  from execution_timeout_clamped [OF b1 m1]
  have "execution_timeout j1 = PInt 595 \<and> runtime_timeout j1 = Some (PInt 600)
        \<and> py_lt (execution_timeout j1) (PInt 600) = Inr True"
    by (auto simp: builder_defs)
  moreover from execution_timeout_clamped [OF b2 m2]
  have "execution_timeout j2 = PInt 3590 \<and> py_lt (execution_timeout j2) (PInt 3600) = Inr True"
    by (auto simp: builder_defs)
  ultimately show ?thesis using b1 b2 by blast
qed

subsection \<open>The data limit\<close>

lemma check_data_limit_exceeded:
  assumes "cfg ''lithops'' = Some l"
    and "num (case l ''data_limit'' of Some v \<Rightarrow> v | None \<Rightarrow> MAX_AGG_DATA_SIZE E) = Some d"
    and "d \<noteq> 0" and "sz > d * 1024 ^ 2"
  shows "check_data_limit E cfg sz = Inl (Exception ''Total data exceeded maximum size'')"
proof -
  let ?dl = "case l ''data_limit'' of Some v \<Rightarrow> v | None \<Rightarrow> MAX_AGG_DATA_SIZE E"
  from assms(2,3) have "truthy ?dl" by (cases ?dl) (auto split: if_splits)
  with assms show ?thesis
    by (simp add: check_data_limit_def getitem_def Let_def)
qed

lemma create_job_Inl:
  "prepare_job E cfg a = Inl e \<Longrightarrow> create_job E cfg a = ([], Inl e)"
  by (simp add: create_job_def)

lemma prepare_job_data_limit:
  assumes "check_data_limit E cfg (data_size_bytes (arg_data_strs a)) = Inl x"
  shows "\<exists>e. prepare_job E cfg a = Inl e"
proof (cases "prepare_job E cfg a")
  case (Inl e)
  then show ?thesis by blast
next
  case (Inr r)
  obtain j uf ud where "r = (j, uf, ud)" by (cases r) auto
  with Inr assms show ?thesis by (auto simp: prepare_job_Inr)
qed

lemma prepare_job_data_limit_exn:
  assumes "check_data_limit E cfg (data_size_bytes (arg_data_strs a)) = Inl x"
    and "job_init cfg a = Inr j0"
    and "cfg_get cfg ''lithops'' ''mode'' = Inr mode"
    and "cfg_get cfg ''lithops'' ''backend'' = Inr backend"
    and "apply_mode E cfg a mode backend j0 = Inr j"
  shows "prepare_job E cfg a = Inl x"
  using assms by (simp add: prepare_job_def)

lemma submit_Inl: "submit R s (evs, Inl e) = (Inl e, s\<lparr>trace := trace s @ evs\<rparr>)"
  by (simp add: submit_def)

lemma create_map_job_Inl:
  "create_job E cfg a = (evs, Inl e) \<Longrightarrow> create_map_job E cfg a ppo = (evs, Inl e)"
  by (simp add: create_map_job_def)

text \<open>
  C1. Let the data limit in force be the entry \<^verbatim>\<open>data_limit\<close> of the configuration
  when the key is present and the default maximum otherwise, a number \<open>d\<close> other than
  zero (a limit of \<^verbatim>\<open>None\<close>, \<^verbatim>\<open>False\<close> or \<^verbatim>\<open>0\<close> switches the check off, so
  there is no limit to exceed). If the summed length of the serialized data is greater
  than \<open>d\<close> MiB, every build of a job for that data raises an exception and has
  performed no storage event; when the steps before the check succeed, the exception is
  the one of the data limit. In \<^verbatim>\<open>map\<close> and \<^verbatim>\<open>call_async\<close> the exception leaves the
  method: the trace is as before, so nothing was uploaded and nothing submitted to the
  backend, and no Future was added.
\<close>

theorem data_limit_exceeded_raises:
  assumes "cfg ''lithops'' = Some l"
    and "num (case l ''data_limit'' of Some v \<Rightarrow> v | None \<Rightarrow> MAX_AGG_DATA_SIZE E) = Some d"
    and "d \<noteq> 0"
    and "data_size_bytes ds > d * 1024 ^ 2"
  shows "(\<forall>a. arg_data_strs a = ds \<longrightarrow>
            (\<exists>e. create_job E cfg a = ([], Inl e)) \<and>
            ((\<exists>j0 mode backend j. job_init cfg a = Inr j0
                \<and> cfg_get cfg ''lithops'' ''mode'' = Inr mode
                \<and> cfg_get cfg ''lithops'' ''backend'' = Inr backend
                \<and> apply_mode E cfg a mode backend j0 = Inr j) \<longrightarrow>
             create_job E cfg a = ([], Inl (Exception ''Total data exceeded maximum size''))))
    \<and> (\<forall>R s c. ex_config s = cfg \<and> call_data_strs c = ds \<longrightarrow>
          (\<exists>e. fst (map_fn E R s c) = Inl e) \<and> trace (snd (map_fn E R s c)) = trace s
          \<and> futures (snd (map_fn E R s c)) = futures s
          \<and> (\<exists>e. fst (call_async E R s c) = Inl e) \<and> trace (snd (call_async E R s c)) = trace s
          \<and> futures (snd (call_async E R s c)) = futures s)"
proof -
  have limit: "check_data_limit E cfg (data_size_bytes (arg_data_strs a))
            = Inl (Exception ''Total data exceeded maximum size'')" if "arg_data_strs a = ds" for a
    using assms that by (simp add: check_data_limit_exceeded)
  have raise: "\<exists>e. create_job E cfg a = ([], Inl e)" if "arg_data_strs a = ds" for a
    using prepare_job_data_limit [OF limit [OF that]] by (auto simp: create_job_Inl)
  have which: "create_job E cfg a = ([], Inl (Exception ''Total data exceeded maximum size''))"
    if "arg_data_strs a = ds" and "job_init cfg a = Inr j0"
      and "cfg_get cfg ''lithops'' ''mode'' = Inr mode"
      and "cfg_get cfg ''lithops'' ''backend'' = Inr backend"
      and "apply_mode E cfg a mode backend j0 = Inr j" for a j0 mode backend j
    using prepare_job_data_limit_exn [OF limit [OF that(1)] that(2-5)] by (rule create_job_Inl)
  have exec: "(\<exists>e. fst (map_fn E R s c) = Inl e) \<and> trace (snd (map_fn E R s c)) = trace s
          \<and> futures (snd (map_fn E R s c)) = futures s
          \<and> (\<exists>e. fst (call_async E R s c) = Inl e) \<and> trace (snd (call_async E R s c)) = trace s
          \<and> futures (snd (call_async E R s c)) = futures s"
    if "ex_config s = cfg" and "call_data_strs c = ds" for R and s :: "'a executor" and c
  proof -
    let ?am = "\<lparr>arg_executor_id = ex_executor_id s, arg_job_id = fst (create_job_id s ''M''),
                     arg_data_strs = call_data_strs c,
                     arg_runtime_memory = call_runtime_memory c,
                     arg_execution_timeout = call_timeout c,
                     arg_chunksize = call_chunksize c,
                     arg_worker_processes = call_worker_processes c,
                     arg_invoke_pool_threads = call_invoke_pool_threads c\<rparr>"
    let ?aa = "\<lparr>arg_executor_id = ex_executor_id s, arg_job_id = fst (create_job_id s ''A''),
                     arg_data_strs = call_data_strs c,
                     arg_runtime_memory = call_runtime_memory c,
                     arg_execution_timeout = call_timeout c,
                     arg_chunksize = PNone, arg_worker_processes = PNone,
                     arg_invoke_pool_threads = PInt 16\<rparr>"
    from raise [of ?am] that obtain e1 where m: "create_job E (ex_config s) ?am = ([], Inl e1)" by auto
    from raise [of ?aa] that obtain e2 where a: "create_job E (ex_config s) ?aa = ([], Inl e2)" by auto
    have "fst (map_fn E R s c) = Inl e1 \<and> trace (snd (map_fn E R s c)) = trace s
          \<and> futures (snd (map_fn E R s c)) = futures s"
      using create_map_job_Inl [OF m, of "call_ppo c"]
      by (simp add: map_fn_def create_job_id_def submit_Inl)
    moreover have "fst (call_async E R s c) = Inl e2 \<and> trace (snd (call_async E R s c)) = trace s
          \<and> futures (snd (call_async E R s c)) = futures s"
      using create_map_job_Inl [OF a, of "call_ppo c"]
      by (simp add: call_async_def create_job_id_def submit_Inl)
    ultimately show ?thesis by blast
  qed
  from raise which exec show ?thesis by blast
qed

lemmas executor_demo_defs = demo_future_def demo_heap_def demo_executor_def demo_runner_def
  demo_call_def

theorem data_limit_exceeded_raises_witness:
  "data_size_bytes [replicate 1048577 CHR ''a''] > 1 * 1024 ^ 2
   \<and> create_job demo_env (demo_config (PStr ''serverless'') ''ibm_cf'' [''data_limit'' \<mapsto> PInt 1])
        (demo_args [replicate 1048577 CHR ''a''] PNone)
      = ([], Inl (Exception ''Total data exceeded maximum size''))
   \<and> trace (snd (map_fn demo_env demo_runner
        (demo_executor (demo_config (PStr ''serverless'') ''ibm_cf'' [''data_limit'' \<mapsto> PInt 1]) [])
        (demo_call [replicate 1048577 CHR ''a'']))) = []
   \<and> futures (snd (map_fn demo_env demo_runner
        (demo_executor (demo_config (PStr ''serverless'') ''ibm_cf'' [''data_limit'' \<mapsto> PInt 1]) [])
        (demo_call [replicate 1048577 CHR ''a'']))) = []"
proof -
  let ?cfg = "demo_config (PStr ''serverless'') ''ibm_cf'' [''data_limit'' \<mapsto> PInt 1]"
  let ?ds = "[replicate 1048577 CHR ''a'']"
  let ?l = "[''mode'' \<mapsto> PStr ''serverless'', ''backend'' \<mapsto> PStr ''ibm_cf'',
          ''chunksize'' \<mapsto> PInt 1, ''worker_processes'' \<mapsto> PInt 1,
          ''execution_timeout'' \<mapsto> PInt 1800] ++ [''data_limit'' \<mapsto> PInt 1]"
  have h1: "?cfg ''lithops'' = Some ?l" by (simp add: demo_config_def)
  have h2: "num (case ?l ''data_limit'' of Some v \<Rightarrow> v | None \<Rightarrow> MAX_AGG_DATA_SIZE demo_env) = Some 1"
    by simp
  have h3: "(1::int) \<noteq> 0" by simp
  have h4: "data_size_bytes ?ds > 1 * 1024 ^ 2" by (simp add: data_size_bytes_def)
  note inst = data_limit_exceeded_raises [where cfg = ?cfg and l = ?l and E = demo_env and d = 1
    and ds = ?ds, OF h1 h2 h3 h4]
  have pre: "\<exists>j0 mode backend j. job_init ?cfg (demo_args ?ds PNone) = Inr j0
                \<and> cfg_get ?cfg ''lithops'' ''mode'' = Inr mode
                \<and> cfg_get ?cfg ''lithops'' ''backend'' = Inr backend
                \<and> apply_mode demo_env ?cfg (demo_args ?ds PNone) mode backend j0 = Inr j"
    by (simp add: builder_defs)
  have a: "arg_data_strs (demo_args ?ds PNone) = ?ds" by (simp add: demo_args_def)
  from inst a pre have "create_job demo_env ?cfg (demo_args ?ds PNone)
      = ([], Inl (Exception ''Total data exceeded maximum size''))" by blast
  moreover have "trace (snd (map_fn demo_env demo_runner (demo_executor ?cfg []) (demo_call ?ds))) = []
    \<and> futures (snd (map_fn demo_env demo_runner (demo_executor ?cfg []) (demo_call ?ds))) = []"
  proof -
    have c: "ex_config (demo_executor ?cfg []) = ?cfg \<and> call_data_strs (demo_call ?ds) = ?ds"
      by (simp add: demo_executor_def demo_call_def)
    have t: "trace (demo_executor ?cfg []) = [] \<and> futures (demo_executor ?cfg []) = []"
      by (simp add: demo_executor_def)
    from inst c have "trace (snd (map_fn demo_env demo_runner (demo_executor ?cfg []) (demo_call ?ds)))
        = trace (demo_executor ?cfg [])
      \<and> futures (snd (map_fn demo_env demo_runner (demo_executor ?cfg []) (demo_call ?ds)))
        = futures (demo_executor ?cfg [])"
      by blast
    with t show ?thesis by simp
  qed
  ultimately show ?thesis using h4 by simp
qed

subsection \<open>Inline data or uploaded data\<close>

lemma upload_data_Inr:
  "upload_data E backend cs ds = Inr ud \<longleftrightarrow>
     (\<exists>d rest c. ds = d # rest \<and> num cs = Some c \<and>
        ud = (\<not> (int (length (str_bytes d)) * c < 9632 \<and> in_backends backend (FAAS_BACKENDS E))))"
  by (auto simp: upload_data_def split: list.splits option.splits)

lemma store_data_inline:
  "data_key (snd (store_data E ud ds j)) = None \<longleftrightarrow> \<not> ud"
  "\<not> ud \<Longrightarrow> data_byte_ranges (snd (store_data E ud ds j)) = None"
  "\<not> ud \<Longrightarrow> data_byte_strs (snd (store_data E ud ds j)) = Some ds"
  "\<not> ud \<Longrightarrow> fst (store_data E ud ds j) = []"
  "ud \<Longrightarrow> fst (store_data E ud ds j) = [PutData (create_agg_data_key E (executor_id j) (job_id j))]"
  by (simp_all add: store_data_def Let_def)

lemma store_function_events:
  "PutData k \<notin> set (fst (store_function E uf j))"
  by (simp add: store_function_def Let_def)

lemma store_function_ids:
  "executor_id (snd (store_function E uf j)) = executor_id j"
  "job_id (snd (store_function E uf j)) = job_id j"
  by (simp_all add: store_function_def Let_def)

lemma job_init_chunksize:
  "job_init cfg a = Inr j0 \<Longrightarrow>
     or_cfg (arg_chunksize a) cfg ''lithops'' ''chunksize'' = Inr (chunksize j0)"
  by (auto simp: job_init_def ebind_eq_Inr)

lemma serverless_budget_chunksize:
  "serverless_budget cfg a backend j0 = Inr j \<Longrightarrow> chunksize j = chunksize j0"
  unfolding serverless_budget_def Let_def ebind_eq_Inr
  by (elim exE conjE) (auto split: if_splits simp: ebind_eq_Inr)

lemma standalone_budget_chunksize:
  "standalone_budget E cfg j0 = Inr j \<Longrightarrow> chunksize j = chunksize j0"
  unfolding standalone_budget_def Let_def ebind_eq_Inr
  by (elim exE conjE) (auto split: if_splits simp: ebind_eq_Inr)

lemma apply_mode_chunksize:
  "apply_mode E cfg a mode backend j0 = Inr j \<Longrightarrow> chunksize j = chunksize j0"
  by (auto simp: apply_mode_def ebind_eq_Inr serverless_budget_chunksize
        standalone_budget_chunksize split: if_splits)

text \<open>
  C10. Whenever \<^verbatim>\<open>_create_job\<close> returns a job, the data list has a first element
  \<open>d\<close> and the job's chunksize is a number \<open>c\<close>; the data is kept inline
  (\<open>data_key\<close> is \<^verbatim>\<open>None\<close>) exactly when the backend is one of the FaaS backends
  and the length of the text \<^verbatim>\<open>str(d)\<close> times \<open>c\<close> is below \<^verbatim>\<open>8*1204 = 9632\<close>.
  When inline, \<open>data_byte_ranges\<close> is \<^verbatim>\<open>None\<close>, \<open>data_byte_strs\<close> holds all
  serialized elements and no data object is uploaded; otherwise the aggregated object is
  uploaded under the job's data key. Replacing the elements after the first by any
  others, a build that returns takes the same decision.
\<close>

theorem inline_data_decision:
  assumes built: "create_job E cfg a = (evs, Inr j)"
    and backend: "cfg_get cfg ''lithops'' ''backend'' = Inr backend"
  shows "\<exists>d rest c. arg_data_strs a = d # rest \<and> num (chunksize j) = Some c
     \<and> or_cfg (arg_chunksize a) cfg ''lithops'' ''chunksize'' = Inr (chunksize j)
     \<and> (data_key j = None) =
         (int (length (str_bytes d)) * c < 9632 \<and> in_backends backend (FAAS_BACKENDS E))
     \<and> (data_key j = None \<longrightarrow>
           data_byte_ranges j = None \<and> data_byte_strs j = Some (arg_data_strs a)
           \<and> (\<forall>k. PutData k \<notin> set evs))
     \<and> (data_key j \<noteq> None \<longrightarrow> PutData (the (data_key j)) \<in> set evs)
     \<and> (\<forall>rest' evs' j'. create_job E cfg (a\<lparr>arg_data_strs := d # rest'\<rparr>) = (evs', Inr j')
           \<longrightarrow> (data_key j' = None) = (data_key j = None))"
proof -
  from built obtain j1 uf ud where prep: "prepare_job E cfg a = Inr (j1, uf, ud)"
    and evs: "evs = fst (store_function E uf j1)
                @ fst (store_data E ud (arg_data_strs a) (snd (store_function E uf j1)))"
    and j: "j = snd (store_data E ud (arg_data_strs a) (snd (store_function E uf j1)))"
    unfolding create_job_Inr by blast
  from prep backend obtain j0 mode where init: "job_init cfg a = Inr j0"
    and am: "apply_mode E cfg a mode backend j0 = Inr j1"
    and ud: "upload_data E backend (chunksize j1) (arg_data_strs a) = Inr ud"
    unfolding prepare_job_Inr by auto
  have cs: "chunksize j = chunksize j1"
    unfolding j by (rule store_keeps_budget)
  have cs0: "or_cfg (arg_chunksize a) cfg ''lithops'' ''chunksize'' = Inr (chunksize j)"
    using job_init_chunksize [OF init] apply_mode_chunksize [OF am] cs by simp
  from ud obtain d rest c where ds: "arg_data_strs a = d # rest"
    and c: "num (chunksize j1) = Some c"
    and dec: "ud = (\<not> (int (length (str_bytes d)) * c < 9632
                      \<and> in_backends backend (FAAS_BACKENDS E)))"
    unfolding upload_data_Inr by blast
  have key: "(data_key j = None) = (\<not> ud)"
    unfolding j by (rule store_data_inline)
  have inline: "data_byte_ranges j = None \<and> data_byte_strs j = Some (arg_data_strs a)
                \<and> (\<forall>k. PutData k \<notin> set evs)" if "data_key j = None"
  proof -
    from that key have "\<not> ud" by simp
    then show ?thesis
      unfolding j evs by (simp add: store_data_inline store_function_events)
  qed
  have uploaded: "PutData (the (data_key j)) \<in> set evs" if "data_key j \<noteq> None"
  proof -
    from that key have "ud" by simp
    then show ?thesis
      unfolding j evs by (simp add: store_data_def Let_def)
  qed
  have others: "(data_key j' = None) = (data_key j = None)"
    if b': "create_job E cfg (a\<lparr>arg_data_strs := d # rest'\<rparr>) = (evs', Inr j')"
    for rest' evs' j'
  proof -
    let ?a = "a\<lparr>arg_data_strs := d # rest'\<rparr>"
    from b' obtain j1' uf' ud' where prep': "prepare_job E cfg ?a = Inr (j1', uf', ud')"
      and j': "j' = snd (store_data E ud' (arg_data_strs ?a) (snd (store_function E uf' j1')))"
      unfolding create_job_Inr by blast
    from prep' backend obtain j0' mode' where init': "job_init cfg ?a = Inr j0'"
      and am': "apply_mode E cfg ?a mode' backend j0' = Inr j1'"
      and ud': "upload_data E backend (chunksize j1') (arg_data_strs ?a) = Inr ud'"
      unfolding prepare_job_Inr by auto
    have "or_cfg (arg_chunksize ?a) cfg ''lithops'' ''chunksize'' = Inr (chunksize j1')"
      using job_init_chunksize [OF init'] apply_mode_chunksize [OF am'] by simp
    with cs0 cs have same: "chunksize j1' = chunksize j1" by simp
    from ud' c same have "ud' = (\<not> (int (length (str_bytes d)) * c < 9632
                      \<and> in_backends backend (FAAS_BACKENDS E)))"
      unfolding upload_data_Inr by auto
    with dec have "ud' = ud" by simp
    moreover have "(data_key j' = None) = (\<not> ud')"
      unfolding j' by (rule store_data_inline)
    ultimately show ?thesis using key by simp
  qed
  from ds c cs cs0 key dec inline uploaded others show ?thesis
    by (intro exI [of _ d] exI [of _ rest] exI [of _ c]) (simp only: , blast)
qed


theorem inline_data_decision_witness:
  "(\<exists>evs j. create_job demo_env (demo_config (PStr ''serverless'') ''ibm_cf'' Map.empty)
               (demo_args [''abc'', replicate 20000 CHR ''x''] PNone) = (evs, Inr j)
        \<and> data_key j = None \<and> data_byte_ranges j = None
        \<and> data_byte_strs j = Some [''abc'', replicate 20000 CHR ''x''])
   \<and> (\<exists>evs j. create_job demo_env (demo_config (PStr ''serverless'') ''ibm_cf'' Map.empty)
               ((demo_args [''abc''] PNone)\<lparr>arg_chunksize := PInt 5000\<rparr>) = (evs, Inr j)
        \<and> data_key j \<noteq> None \<and> PutData (the (data_key j)) \<in> set evs)"
proof -
  let ?cfg = "demo_config (PStr ''serverless'') ''ibm_cf'' Map.empty"
  let ?a1 = "demo_args [''abc'', replicate 20000 CHR ''x''] PNone"
  let ?a2 = "(demo_args [''abc''] PNone)\<lparr>arg_chunksize := PInt 5000\<rparr>"
  have bk: "cfg_get ?cfg ''lithops'' ''backend'' = Inr (PStr ''ibm_cf'')"
    by (simp add: builder_defs)
  obtain evs1 j1 where b1: "create_job demo_env ?cfg ?a1 = (evs1, Inr j1)"
    by (simp add: builder_defs)
  obtain evs2 j2 where b2: "create_job demo_env ?cfg ?a2 = (evs2, Inr j2)"
    by (simp add: builder_defs)
  have "data_key j1 = None \<and> data_byte_ranges j1 = None
        \<and> data_byte_strs j1 = Some [''abc'', replicate 20000 CHR ''x'']"
  proof -
    from inline_data_decision [OF b1 bk] obtain d rest c where
      ds: "arg_data_strs ?a1 = d # rest" and c: "num (chunksize j1) = Some c"
      and cs: "or_cfg (arg_chunksize ?a1) ?cfg ''lithops'' ''chunksize'' = Inr (chunksize j1)"
      and key: "(data_key j1 = None) =
         (int (length (str_bytes d)) * c < 9632 \<and> in_backends (PStr ''ibm_cf'') (FAAS_BACKENDS demo_env))"
      and inl: "data_key j1 = None \<longrightarrow>
           data_byte_ranges j1 = None \<and> data_byte_strs j1 = Some (arg_data_strs ?a1)
           \<and> (\<forall>k. PutData k \<notin> set evs1)"
      by (elim exE conjE) (rule that)
    from ds have d: "d = ''abc''" by (simp add: demo_args_def)
    from cs have "chunksize j1 = PInt 1" by (simp add: builder_defs)
    with c have "c = 1" by simp
    with key d have "data_key j1 = None" by (simp add: builder_defs)
    with inl show ?thesis by (simp add: demo_args_def)
  qed
  moreover have "data_key j2 \<noteq> None \<and> PutData (the (data_key j2)) \<in> set evs2"
  proof -
    from inline_data_decision [OF b2 bk] obtain d rest c where
      ds: "arg_data_strs ?a2 = d # rest" and c: "num (chunksize j2) = Some c"
      and cs: "or_cfg (arg_chunksize ?a2) ?cfg ''lithops'' ''chunksize'' = Inr (chunksize j2)"
      and key: "(data_key j2 = None) =
         (int (length (str_bytes d)) * c < 9632 \<and> in_backends (PStr ''ibm_cf'') (FAAS_BACKENDS demo_env))"
      and upl: "data_key j2 \<noteq> None \<longrightarrow> PutData (the (data_key j2)) \<in> set evs2"
      by (elim exE conjE) (rule that)
    from ds have d: "d = ''abc''" by (simp add: demo_args_def)
    from cs have "chunksize j2 = PInt 5000" by (simp add: builder_defs)
    with c have "c = 5000" by simp
    with key d have "data_key j2 \<noteq> None" by (simp add: builder_defs)
    with upl show ?thesis by simp
  qed
  ultimately show ?thesis using b1 b2 by blast
qed

section \<open>Properties of the reduce job\<close>

lemma length_reduce_slices: "length (reduce_slices prev ppo fs) = length ppo"
  by (induction ppo arbitrary: prev) auto

lemma nth_reduce_slices:
  "i < length ppo \<Longrightarrow>
     reduce_slices prev ppo fs ! i = take (ppo ! i) (drop (prev + sum_list (take i ppo)) fs)"
proof (induction ppo arbitrary: prev i)
  case Nil
  then show ?case by simp
next
  case (Cons t ts)
  show ?case
  proof (cases i)
    case 0
    then show ?thesis by simp
  next
    case (Suc k)
    with Cons.prems have "k < length ts" by simp
    from Cons.IH [OF this, of "prev + t"] Suc show ?thesis
      by (simp add: add.assoc)
  qed
qed

lemma concat_reduce_slices:
  "concat (reduce_slices prev ppo fs) = take (sum_list ppo) (drop prev fs)"
proof (induction ppo arbitrary: prev)
  case Nil
  then show ?case by simp
next
  case (Cons t ts)
  have "take t (drop prev fs) @ take (sum_list ts) (drop (prev + t) fs)
          = take (t + sum_list ts) (drop prev fs)"
    by (simp add: take_add add.commute)
  with Cons.IH [of "prev + t"] show ?case by simp
qed

lemma sum_list_take_le: "sum_list (take i ppo) \<le> sum_list (ppo :: nat list)"
  by (metis append_take_drop_id le_add1 sum_list_append)

lemma offsets_ordered:
  fixes ppo :: "nat list"
  assumes "i < j" and "j \<le> length ppo"
  shows "sum_list (take i ppo) + ppo ! i \<le> sum_list (take j ppo)"
proof -
  from assms have i: "i < length ppo" by simp
  have "sum_list (take (Suc i) ppo) = sum_list (take i ppo) + ppo ! i"
    using i by (simp add: take_Suc_conv_app_nth)
  moreover have "take (Suc i) ppo = take (Suc i) (take j ppo)"
    using assms by (simp add: min_def)
  then have "sum_list (take (Suc i) ppo) \<le> sum_list (take j ppo)"
    using sum_list_take_le [of "Suc i" "take j ppo"] by simp
  ultimately show ?thesis by simp
qed

lemma slice_length:
  fixes ppo :: "nat list"
  assumes "sum_list ppo = length fs" and "i < length ppo"
  shows "length (take (ppo ! i) (drop (sum_list (take i ppo)) fs)) = ppo ! i"
proof -
  from offsets_ordered [of i "length ppo" ppo] assms
  have "sum_list (take i ppo) + ppo ! i \<le> length fs" by simp
  then show ?thesis by simp
qed

lemma distinct_concat_disjoint:
  assumes "distinct (concat xss)" and "i < j" and "j < length xss"
  shows "set (xss ! i) \<inter> set (xss ! j) = {}"
  using assms
proof (induction xss arbitrary: i j)
  case Nil
  then show ?case by simp
next
  case (Cons xs xss)
  show ?case
  proof (cases i)
    case 0
    with Cons.prems obtain k where j: "j = Suc k" and k: "k < length xss"
      by (cases j) auto
    from Cons.prems(1) have "set xs \<inter> set (concat xss) = {}" by auto
    moreover have "xss ! k \<in> set xss" using k by simp
    then have "set (xss ! k) \<subseteq> set (concat xss)" by auto
    ultimately show ?thesis using 0 j by auto
  next
    case (Suc i')
    with Cons.prems obtain k where j: "j = Suc k" and k: "k < length xss" and ik: "i' < k"
      by (cases j) auto
    from Cons.prems(1) have "distinct (concat xss)" by simp
    from Cons.IH [OF this ik k] Suc j show ?thesis by simp
  qed
qed

lemma serverless_budget_total_calls:
  "serverless_budget cfg a backend j0 = Inr j \<Longrightarrow> total_calls j = total_calls j0"
  unfolding serverless_budget_def Let_def ebind_eq_Inr
  by (elim exE conjE) (auto split: if_splits simp: ebind_eq_Inr)

lemma standalone_budget_total_calls:
  "standalone_budget E cfg j0 = Inr j \<Longrightarrow> total_calls j = total_calls j0"
  unfolding standalone_budget_def Let_def ebind_eq_Inr
  by (elim exE conjE) (auto split: if_splits simp: ebind_eq_Inr)

lemma apply_mode_total_calls:
  "apply_mode E cfg a mode backend j0 = Inr j \<Longrightarrow> total_calls j = total_calls j0"
  by (auto simp: apply_mode_def ebind_eq_Inr serverless_budget_total_calls
        standalone_budget_total_calls split: if_splits)

lemma job_init_total_calls:
  "job_init cfg a = Inr j0 \<Longrightarrow> total_calls j0 = length (arg_data_strs a)"
  by (auto simp: job_init_def ebind_eq_Inr)

lemma create_job_total_calls:
  assumes "create_job E cfg a = (evs, Inr j)"
  shows "total_calls j = length (arg_data_strs a)"
proof -
  from assms obtain j1 uf ud where prep: "prepare_job E cfg a = Inr (j1, uf, ud)"
    and j: "j = snd (store_data E ud (arg_data_strs a) (snd (store_function E uf j1)))"
    unfolding create_job_Inr by blast
  from prep obtain j0 mode backend where init: "job_init cfg a = Inr j0"
    and am: "apply_mode E cfg a mode backend j0 = Inr j1"
    unfolding prepare_job_Inr by blast
  have "total_calls j = total_calls j1"
    unfolding j by (rule store_keeps_budget)
  with apply_mode_total_calls [OF am] job_init_total_calls [OF init] show ?thesis by simp
qed

text \<open>
  C9. Let the map job carry the per-object counts \<open>ppo\<close>, let
  \<^verbatim>\<open>reducer_one_per_object\<close> be set, and let \<^verbatim>\<open>map_futures\<close> be the Futures of that
  map job, one per partition, so that the counts add up to its length. Then the reduce
  input has one element per source object; the \<open>i\<close>-th element is the slice of
  \<^verbatim>\<open>map_futures\<close> that starts where the first \<open>i\<close> counts end and has the \<open>i\<close>-th
  count as its length; an earlier slice ends before a later one starts, so no position
  of the list is in two slices (and no Future, when the list does not repeat one); the
  slices concatenated in order give \<^verbatim>\<open>map_futures\<close>; and a reduce job that is built
  has one call per source object.
\<close>

theorem reduce_one_per_object_slices:
  assumes ppo: "parts_per_object map_job = Some ppo"
    and one: "reducer_one_per_object"
    and total: "sum_list ppo = length map_futures"
  shows "length (reduce_iterdata map_job reducer_one_per_object map_futures) = length ppo
    \<and> (\<forall>i<length ppo.
          reduce_iterdata map_job reducer_one_per_object map_futures ! i
            = take (ppo ! i) (drop (sum_list (take i ppo)) map_futures)
          \<and> length (reduce_iterdata map_job reducer_one_per_object map_futures ! i) = ppo ! i)
    \<and> (\<forall>i j. i < j \<and> j < length ppo \<longrightarrow>
          sum_list (take i ppo) + ppo ! i \<le> sum_list (take j ppo))
    \<and> (distinct map_futures \<longrightarrow> (\<forall>i j. i < j \<and> j < length ppo \<longrightarrow>
          set (reduce_iterdata map_job reducer_one_per_object map_futures ! i)
            \<inter> set (reduce_iterdata map_job reducer_one_per_object map_futures ! j) = {}))
    \<and> concat (reduce_iterdata map_job reducer_one_per_object map_futures) = map_futures
    \<and> (\<forall>E cfg ser ex_id rid mem tmo evs j.
          create_reduce_job E cfg ser ex_id rid map_job map_futures mem
            reducer_one_per_object tmo = (evs, Inr j)
          \<longrightarrow> total_calls j = length ppo)"
proof -
  let ?it = "reduce_iterdata map_job reducer_one_per_object map_futures"
  have it: "?it = reduce_slices 0 ppo map_futures"
    using ppo one by (simp add: reduce_iterdata_def)
  have len: "length ?it = length ppo"
    unfolding it by (rule length_reduce_slices)
  have nth: "?it ! i = take (ppo ! i) (drop (sum_list (take i ppo)) map_futures)
             \<and> length (?it ! i) = ppo ! i" if "i < length ppo" for i
    unfolding it using nth_reduce_slices [OF that, of 0 map_futures]
      slice_length [OF total that] by simp
  have ord: "sum_list (take i ppo) + ppo ! i \<le> sum_list (take j ppo)"
    if "i < j \<and> j < length ppo" for i j
    using that offsets_ordered [of i j ppo] by simp
  have cat: "concat ?it = map_futures"
    unfolding it using total by (simp add: concat_reduce_slices)
  have dis: "set (?it ! i) \<inter> set (?it ! j) = {}"
    if "distinct map_futures" and "i < j \<and> j < length ppo" for i j
    using distinct_concat_disjoint [of ?it i j] that cat len by simp
  have calls: "total_calls j = length ppo"
    if "create_reduce_job E cfg ser ex_id rid map_job map_futures mem
            reducer_one_per_object tmo = (evs, Inr j)"
    for E cfg ser ex_id rid mem tmo evs j
    using create_job_total_calls [OF that [unfolded create_reduce_job_def]] len by simp
  from len nth ord dis cat calls show ?thesis by blast
qed


theorem reduce_one_per_object_slices_witness:
  "sum_list [2, 1] = length [0, 1, 2 :: nat]
   \<and> length (reduce_iterdata (demo_map_job [2, 1]) True [0, 1, 2 :: nat]) = 2
   \<and> reduce_iterdata (demo_map_job [2, 1]) True [0, 1, 2 :: nat] ! 0 = [0, 1]
   \<and> reduce_iterdata (demo_map_job [2, 1]) True [0, 1, 2 :: nat] ! 1 = [2]
   \<and> concat (reduce_iterdata (demo_map_job [2, 1]) True [0, 1, 2 :: nat]) = [0, 1, 2]"
proof -
  have p: "parts_per_object (demo_map_job [2, 1]) = Some [2, 1]"
    by (simp add: demo_map_job_def)
  have t: "sum_list [2, 1] = length [0, 1, 2 :: nat]" by simp
  note inst = reduce_one_per_object_slices [OF p TrueI t]
  from inst have "length (reduce_iterdata (demo_map_job [2, 1]) True [0, 1, 2 :: nat]) = 2"
    by simp
  moreover from inst have "reduce_iterdata (demo_map_job [2, 1]) True [0, 1, 2 :: nat] ! 0
      = take ([2, 1] ! 0) (drop (sum_list (take 0 [2, 1])) [0, 1, 2])"
    by simp
  moreover from inst have "reduce_iterdata (demo_map_job [2, 1]) True [0, 1, 2 :: nat] ! 1
      = take ([2, 1] ! 1) (drop (sum_list (take 1 [2, 1])) [0, 1, 2])"
    by simp
  moreover from inst have "concat (reduce_iterdata (demo_map_job [2, 1]) True [0, 1, 2 :: nat])
      = [0, 1, 2]"
    by blast
  ultimately show ?thesis by simp
qed

section \<open>Properties of the executor\<close>

subsection \<open>Job identifiers\<close>

lemma digit_val_digit_char:
  assumes "d < 10"
  shows "digit_val (digit_char d) = d"
proof -
  from assms consider "d = 0" | "d = 1" | "d = 2" | "d = 3" | "d = 4"
    | "d = 5" | "d = 6" | "d = 7" | "d = 8" | "d = 9"
    by (auto simp: less_Suc_eq eval_nat_numeral)
  then show ?thesis
    by cases (simp_all add: digit_val_def digit_char_def)
qed

lemma int_of_str_snoc: "int_of_str (s @ [c]) = 10 * int_of_str s + digit_val c"
  by (simp add: int_of_str_def)

lemma int_of_str_nat: "int_of_str (str_nat n) = n"
proof (induction n rule: str_nat.induct)
  case (1 n)
  show ?case
  proof (cases "n < 10")
    case True
    then show ?thesis
      by (subst str_nat.simps) (simp add: int_of_str_def digit_val_digit_char)
  next
    case False
    with "1.IH" have "int_of_str (str_nat (n div 10)) = n div 10" by simp
    with False show ?thesis
      by (subst str_nat.simps) (simp add: int_of_str_snoc digit_val_digit_char)
  qed
qed

lemma int_of_str_zeros: "int_of_str (replicate k CHR ''0'' @ s) = int_of_str s"
proof -
  have "foldl (\<lambda>acc c. 10 * acc + digit_val c) 0 (replicate k CHR ''0'') = 0"
    by (induction k) (simp_all add: digit_val_def)
  then show ?thesis by (simp add: int_of_str_def)
qed

lemma int_of_str_zfill: "int_of_str (zfill w (str_nat n)) = n"
  by (simp add: zfill_def int_of_str_zeros int_of_str_nat)

lemma zfill_str_nat_inj: "zfill w (str_nat n) = zfill w (str_nat m) \<Longrightarrow> n = m"
  by (metis int_of_str_zfill)

lemma job_ids_length: "length (job_ids s tags) = length tags"
  by (induction tags arbitrary: s) auto

lemma job_ids_nth:
  "i < length tags \<Longrightarrow>
     job_ids s tags ! i = tags ! i @ zfill 3 (str_nat (total_jobs s + i))"
proof (induction tags arbitrary: s i)
  case Nil
  then show ?case by simp
next
  case (Cons t ts)
  show ?case
  proof (cases i)
    case 0
    then show ?thesis by (simp add: create_job_id_def)
  next
    case (Suc k)
    with Cons.prems have "k < length ts" by simp
    from Cons.IH [OF this, of "snd (create_job_id s t)"] Suc show ?thesis
      by (simp add: create_job_id_def)
  qed
qed

lemma same_length_append_inj:
  "length t = length t' \<Longrightarrow> t @ x = t' @ y \<Longrightarrow> x = y"
  by simp


lemma serverless_budget_job_key:
  "serverless_budget cfg a backend j0 = Inr j \<Longrightarrow> job_key j = job_key j0"
  unfolding serverless_budget_def Let_def ebind_eq_Inr
  by (elim exE conjE) (auto split: if_splits simp: ebind_eq_Inr)

lemma standalone_budget_job_key:
  "standalone_budget E cfg j0 = Inr j \<Longrightarrow> job_key j = job_key j0"
  unfolding standalone_budget_def Let_def ebind_eq_Inr
  by (elim exE conjE) (auto split: if_splits simp: ebind_eq_Inr)

lemma apply_mode_job_key:
  "apply_mode E cfg a mode backend j0 = Inr j \<Longrightarrow> job_key j = job_key j0"
  by (auto simp: apply_mode_def ebind_eq_Inr serverless_budget_job_key
        standalone_budget_job_key split: if_splits)

lemma job_init_job_key:
  "job_init cfg a = Inr j0 \<Longrightarrow> job_key j0 = create_job_key (arg_executor_id a) (arg_job_id a)"
  by (auto simp: job_init_def ebind_eq_Inr)

lemma create_job_job_key:
  assumes "create_job E cfg a = (evs, Inr j)"
  shows "job_key j = create_job_key (arg_executor_id a) (arg_job_id a)"
proof -
  from assms obtain j1 uf ud where prep: "prepare_job E cfg a = Inr (j1, uf, ud)"
    and j: "j = snd (store_data E ud (arg_data_strs a) (snd (store_function E uf j1)))"
    unfolding create_job_Inr by blast
  from prep obtain j0 mode backend where init: "job_init cfg a = Inr j0"
    and am: "apply_mode E cfg a mode backend j0 = Inr j1"
    unfolding prepare_job_Inr by blast
  have "job_key j = job_key j1"
    unfolding j by (rule store_keeps_budget)
  with apply_mode_job_key [OF am] job_init_job_key [OF init] show ?thesis by simp
qed

text \<open>
  C8. Each call of \<^verbatim>\<open>_create_job_id\<close> advances the executor's counter by one. In
  a session, the \<open>i\<close>-th identifier is the call type followed by the counter's value at
  that call, padded with zeros to three digits; read back as a number, the part after
  the call type is that value, so it grows strictly from one identifier to the next.
  For call types of one length (the code passes \<^verbatim>\<open>'A'\<close> and \<^verbatim>\<open>'M'\<close>) the
  identifiers of the session are pairwise distinct, and so are the job keys made from
  them for the session's executor id; a job that is built carries that key.
\<close>

theorem job_ids_unique:
  assumes tags: "\<forall>t\<in>set tags. length t = n"
  shows "(\<forall>t. total_jobs (snd (create_job_id s t)) = total_jobs s + 1)
    \<and> length (job_ids s tags) = length tags
    \<and> (\<forall>i<length tags.
          job_ids s tags ! i = tags ! i @ zfill 3 (str_nat (total_jobs s + i))
          \<and> int_of_str (drop n (job_ids s tags ! i)) = total_jobs s + i)
    \<and> (\<forall>i j. i < j \<and> j < length tags \<longrightarrow>
          int_of_str (drop n (job_ids s tags ! i)) < int_of_str (drop n (job_ids s tags ! j)))
    \<and> distinct (job_ids s tags)
    \<and> distinct (map (create_job_key (ex_executor_id s)) (job_ids s tags))
    \<and> (\<forall>E cfg a evs j. create_job E cfg a = (evs, Inr j) \<longrightarrow>
          job_key j = create_job_key (arg_executor_id a) (arg_job_id a))"
proof -
  let ?ids = "job_ids s tags"
  have len: "length ?ids = length tags" by (rule job_ids_length)
  have nth: "?ids ! i = tags ! i @ zfill 3 (str_nat (total_jobs s + i))
             \<and> int_of_str (drop n (?ids ! i)) = total_jobs s + i" if "i < length tags" for i
  proof -
    from that tags have "length (tags ! i) = n" by simp
    with job_ids_nth [OF that, of s] show ?thesis
      by (simp add: int_of_str_zfill)
  qed
  have incr: "int_of_str (drop n (?ids ! i)) < int_of_str (drop n (?ids ! j))"
    if "i < j \<and> j < length tags" for i j
  proof -
    from that have "i < length tags" and "j < length tags" by simp_all
    from nth [OF this(1)] nth [OF this(2)]
    have "int_of_str (drop n (?ids ! i)) = total_jobs s + i"
      and "int_of_str (drop n (?ids ! j)) = total_jobs s + j" by blast+
    with that show ?thesis by simp
  qed
  have ne: "?ids ! i \<noteq> ?ids ! j" if "i < j \<and> j < length tags" for i j
    using incr [OF that] by auto
  have dist: "distinct ?ids"
    unfolding distinct_conv_nth len
  proof (intro allI impI)
    fix i j assume "i < length tags" "j < length tags" "i \<noteq> j"
    then show "?ids ! i \<noteq> ?ids ! j"
      using ne [of i j] ne [of j i] by (cases "i < j") auto
  qed
  have keys: "distinct (map (create_job_key (ex_executor_id s)) ?ids)"
    using dist by (simp add: distinct_map inj_on_def create_job_key_def)
  have cnt: "total_jobs (snd (create_job_id s t)) = total_jobs s + 1" for t
    by (simp add: create_job_id_def)
  from len nth incr dist keys cnt create_job_job_key show ?thesis by blast
qed

theorem job_ids_unique_witness:
  "job_ids (demo_executor Map.empty []) [''A'', ''M'', ''M''] = [''A002'', ''M003'', ''M004'']
   \<and> int_of_str (drop 1 ''M003'') < int_of_str (drop 1 ''M004'')
   \<and> distinct (map (create_job_key ''e1-0'') (job_ids (demo_executor Map.empty []) [''A'', ''M'', ''M'']))"
proof -
  let ?s = "demo_executor Map.empty [] :: nat executor"
  let ?tags = "[''A'', ''M'', ''M'']"
  have t: "\<forall>t\<in>set ?tags. length t = 1" by simp
  note inst = job_ids_unique [OF t, of ?s]
  have tj: "total_jobs ?s = 2" and ex: "ex_executor_id ?s = ''e1-0''"
    by (simp_all add: demo_executor_def)
  from inst have len: "length (job_ids ?s ?tags) = length ?tags" by blast
  from inst have all: "\<forall>i<length ?tags.
          job_ids ?s ?tags ! i = ?tags ! i @ zfill 3 (str_nat (total_jobs ?s + i))
          \<and> int_of_str (drop 1 (job_ids ?s ?tags ! i)) = total_jobs ?s + i" by blast
  have n0: "job_ids ?s ?tags ! 0 = ''A002''"
    using all [rule_format, of 0] tj by (simp add: zfill_def str_nat.simps digit_char_def numeral_2_eq_2)
  have n1: "job_ids ?s ?tags ! 1 = ''M003''"
    using all [rule_format, of 1] tj by (simp add: zfill_def str_nat.simps digit_char_def numeral_2_eq_2)
  have n2: "job_ids ?s ?tags ! 2 = ''M004''"
    using all [rule_format, of 2] tj by (simp add: zfill_def str_nat.simps digit_char_def numeral_2_eq_2)
  have ids: "job_ids ?s ?tags = [''A002'', ''M003'', ''M004'']"
  proof (rule nth_equalityI)
    show "length (job_ids ?s ?tags) = length [''A002'', ''M003'', ''M004'']"
      using len by simp
  next
    fix i assume "i < length (job_ids ?s ?tags)"
    with len have "i = 0 \<or> i = 1 \<or> i = 2" by auto
    then show "job_ids ?s ?tags ! i = [''A002'', ''M003'', ''M004''] ! i"
      using n0 n1 n2 by auto
  qed
  from inst have "\<forall>i j. i < j \<and> j < length ?tags \<longrightarrow>
      int_of_str (drop 1 (job_ids ?s ?tags ! i)) < int_of_str (drop 1 (job_ids ?s ?tags ! j))"
    by blast
  from this [rule_format, of 1 2]
  have "int_of_str (drop 1 (job_ids ?s ?tags ! 1)) < int_of_str (drop 1 (job_ids ?s ?tags ! 2))"
    by simp
  with n1 n2 have lt: "int_of_str (drop 1 ''M003'') < int_of_str (drop 1 ''M004'')" by simp
  from inst have "distinct (map (create_job_key (ex_executor_id ?s)) (job_ids ?s ?tags))"
    by blast
  with ex have "distinct (map (create_job_key ''e1-0'') (job_ids ?s ?tags))" by simp
  with ids lt show ?thesis by blast
qed

subsection \<open>Cleaning\<close>

lemma emit_simps [simp]:
  "trace (emit e s) = trace s @ [e]"
  "heap (emit e s) = heap s"
  "futures (emit e s) = futures s"
  "cleaned_jobs (emit e s) = cleaned_jobs s"
  "total_jobs (emit e s) = total_jobs s"
  "last_call (emit e s) = last_call s"
  "data_cleaner (emit e s) = data_cleaner s"
  "is_lithops_worker (emit e s) = is_lithops_worker s"
  by (simp_all add: emit_def)

lemma new_events_append [simp]: "trace t = trace s @ evs \<Longrightarrow> new_events s t = evs"
  by (simp add: new_events_def)

lemma jobs_handed_append: "jobs_handed (xs @ ys) = jobs_handed xs \<union> jobs_handed ys"
  by (induction xs rule: jobs_handed.induct) auto

lemma fetched_append: "fetched (xs @ ys) = fetched xs @ fetched ys"
  by (induction xs rule: fetched.induct) auto

text \<open>What one call of \<^verbatim>\<open>clean\<close> does to the trace and to the set of cleaned jobs.\<close>

lemma clean_early:
  assumes "list_truthy cs" and "\<not> list_truthy fs"
  shows "trace (clean s fs cs cc sp force) = trace s @ [MakeCleanerDir, SaveCosToClean (the cs)]"
    and "cleaned_jobs (clean s fs cs cc sp force) = cleaned_jobs s"
  using assms by (simp_all add: clean_def Let_def)

lemma clean_full:
  assumes "\<not> (list_truthy cs \<and> \<not> list_truthy fs)"
    and "J = present_jobs (heap s) (or_list fs (futures s)) force - cleaned_jobs s"
  shows "trace (clean s fs cs cc sp force) =
           trace s @ [MakeCleanerDir]
             @ (if list_truthy cs then [SaveCosToClean (the cs)] else [])
             @ (if J \<noteq> {} then [SaveJobsToClean J cc] else [])
             @ (if (J \<noteq> {} \<or> list_truthy cs) \<and> sp then [SpawnCleaner] else [])"
    and "cleaned_jobs (clean s fs cs cc sp force) = cleaned_jobs s \<union> J"
  using assms by (auto simp: clean_def Let_def)

lemma clean_handed:
  "jobs_handed (new_events s (clean s fs cs cc sp force)) =
     (if list_truthy cs \<and> \<not> list_truthy fs then {}
      else present_jobs (heap s) (or_list fs (futures s)) force - cleaned_jobs s)"
proof (cases "list_truthy cs \<and> \<not> list_truthy fs")
  case True
  then show ?thesis
    using clean_early(1) [where s = s and force = force and cc = cc and sp = sp and cs = cs and fs = fs] by simp
next
  case False
  then show ?thesis
    using clean_full(1) [OF False refl, where s = s and force = force and cc = cc and sp = sp] by (simp add: jobs_handed_append)
qed

lemma clean_cleaned_jobs:
  "cleaned_jobs (clean s fs cs cc sp force)
     = cleaned_jobs s \<union> jobs_handed (new_events s (clean s fs cs cc sp force))"
proof (cases "list_truthy cs \<and> \<not> list_truthy fs")
  case True
  then show ?thesis
    using clean_early [where s = s and force = force and cc = cc and sp = sp and cs = cs and fs = fs] by simp
next
  case False
  then show ?thesis
    using clean_full [OF False refl, where s = s and force = force and cc = cc and sp = sp]
    by (auto simp: jobs_handed_append)
qed

lemma clean_frame [simp]:
  "heap (clean s fs cs cc sp force) = heap s"
  "futures (clean s fs cs cc sp force) = futures s"
  "total_jobs (clean s fs cs cc sp force) = total_jobs s"
  "last_call (clean s fs cs cc sp force) = last_call s"
  "data_cleaner (clean s fs cs cc sp force) = data_cleaner s"
  "is_lithops_worker (clean s fs cs cc sp force) = is_lithops_worker s"
  by (simp_all add: clean_def Let_def)

lemma clean_trace_prefix:
  "\<exists>evs. trace (clean s fs cs cc sp force) = trace s @ MakeCleanerDir # evs"
  by (cases "list_truthy cs \<and> \<not> list_truthy fs")
     (simp_all add: clean_def Let_def)


lemma or_list_truthy: "list_truthy fs \<Longrightarrow> or_list fs ys = the fs"
  by (cases fs rule: list_truthy.cases) simp_all

lemma or_list_falsy: "\<not> list_truthy fs \<Longrightarrow> or_list fs ys = ys"
  by (cases fs rule: list_truthy.cases) simp_all

lemma present_jobs_unforced:
  "present_jobs h futs False =
     {k. \<exists>f\<in>set futs. k = create_job_key (fut_executor_id (h f)) (fut_job_id (h f))
           \<and> count_list (fut_executor_id (h f)) CHR ''-'' = 1 \<and> fut_done (h f)}"
  by (auto simp: present_jobs_def)

lemma present_jobs_forced:
  "present_jobs h futs True =
     (\<lambda>f. create_job_key (fut_executor_id (h f)) (fut_job_id (h f))) ` set futs"
  by (auto simp: present_jobs_def)

lemmas executor_defs = clean_def present_jobs_def emit_def new_events_def wait_def
  wait_finally_def wait_except_def get_result_def create_job_key_def Let_def

text \<open>
  C4, as the code has it. For a call of \<^verbatim>\<open>clean\<close> with a non-empty list of Futures
  and \<^verbatim>\<open>force=False\<close>, the job keys handed to the cleaner process are exactly the
  keys, not yet in the executor's set of cleaned jobs, of the Futures of the list
  that are done and whose executor id holds exactly one dash. So a job is scheduled as
  soon as one of its Futures in the list is done, and a job none of whose Futures in
  the list is done is not scheduled.
\<close>

theorem clean_schedules_done_jobs:
  assumes "list_truthy fs"
  shows "jobs_handed (new_events s (clean s fs cs clean_cloudobjects spawn_cleaner False)) =
     {k. \<exists>f\<in>set (the fs).
           k = create_job_key (fut_executor_id (heap s f)) (fut_job_id (heap s f))
           \<and> count_list (fut_executor_id (heap s f)) CHR ''-'' = 1 \<and> fut_done (heap s f)}
       - cleaned_jobs s"
  using assms by (simp add: clean_handed or_list_truthy present_jobs_unforced)

theorem clean_schedules_done_jobs_witness:
  "list_truthy (Some [0, 1 :: nat])
   \<and> jobs_handed (new_events (demo_executor Map.empty [])
        (clean (demo_executor Map.empty []) (Some [0, 1]) None True True False))
      = {''e1-0M000''}"
proof -
  have t: "list_truthy (Some [0, 1 :: nat])" by simp
  have "{k. \<exists>f\<in>set (the (Some [0, 1 :: nat])).
           k = create_job_key (fut_executor_id (heap (demo_executor Map.empty []) f))
                 (fut_job_id (heap (demo_executor Map.empty []) f))
           \<and> count_list (fut_executor_id (heap (demo_executor Map.empty []) f)) CHR ''-'' = 1
           \<and> fut_done (heap (demo_executor Map.empty []) f)}
       - cleaned_jobs (demo_executor Map.empty []) = {''e1-0M000''}"
    by (auto simp: executor_demo_defs create_job_key_def)
  with clean_schedules_done_jobs [OF t, of "demo_executor Map.empty []" None True True] t
  show ?thesis by simp
qed

text \<open>
  The claim as stated fails: the list holds two Futures of the job \<open>M000\<close>, Future 0
  done and Future 1 not done, and the job's key is handed to the cleaner.
\<close>

theorem clean_all_done_counterexample:
  "create_job_key ''e1-0'' ''M000''
     \<in> jobs_handed (new_events (demo_executor Map.empty [])
          (clean (demo_executor Map.empty []) (Some [0, 1]) None True True False))
   \<and> create_job_key (fut_executor_id (heap (demo_executor Map.empty []) 1))
        (fut_job_id (heap (demo_executor Map.empty []) 1)) = create_job_key ''e1-0'' ''M000''
   \<and> \<not> fut_done (heap (demo_executor Map.empty []) 1)"
  by (simp add: executor_defs executor_demo_defs)


subsection \<open>The set of cleaned jobs only grows\<close>

lemma clean_mono: "cleaned_jobs s \<subseteq> cleaned_jobs (clean s fs cs cc sp force)"
  by (simp add: clean_cleaned_jobs)

lemma wait_finally_mono: "cleaned_jobs s \<subseteq> cleaned_jobs (wait_finally s futs)"
proof -
  have "cleaned_jobs (emit e s) \<subseteq> cleaned_jobs (clean (emit e' (emit e s)) None None False True False)"
    for e e'
    using clean_mono [of "emit e' (emit e s)"] by simp
  then show ?thesis
    by (auto simp: wait_finally_def Let_def)
qed

lemma wait_except_mono: "cleaned_jobs s \<subseteq> cleaned_jobs (fst (wait_except nb s fs futs))"
proof -
  have "cleaned_jobs t \<subseteq> cleaned_jobs (clean t None None False True True)" for t :: "'a executor"
    by (rule clean_mono)
  from this [of "emit InvokerStop s"]
    this [of "(emit InvokerStop s)\<lparr>futures := take (length (futures s) - length futs) (futures s)\<rparr>"]
  show ?thesis
    by (auto simp: wait_except_def Let_def)
qed

lemma wait_mono: "cleaned_jobs s \<subseteq> cleaned_jobs (snd (wait W nb s fs dl))"
proof -
  obtain exn h where w: "W (or_list fs (futures s)) (heap s) = (exn, h)"
    by (cases "W (or_list fs (futures s)) (heap s)")
  let ?s1 = "s\<lparr>heap := h\<rparr>"
  show ?thesis
  proof (cases exn)
    case None
    with w have "snd (wait W nb s fs dl) = wait_finally ?s1 (or_list fs (futures s))"
      by (simp add: wait_def Let_def)
    with wait_finally_mono [of ?s1] show ?thesis by simp
  next
    case (Some e)
    obtain s2 futs' where x: "wait_except nb ?s1 fs (or_list fs (futures s)) = (s2, futs')"
      by (cases "wait_except nb ?s1 fs (or_list fs (futures s))")
    with w Some have "snd (wait W nb s fs dl) = wait_finally s2 futs'"
      by (simp add: wait_def Let_def)
    moreover from wait_except_mono [of ?s1 nb fs "or_list fs (futures s)"] x
    have "cleaned_jobs s \<subseteq> cleaned_jobs s2" by simp
    ultimately show ?thesis using wait_finally_mono [of s2 futs'] by auto
  qed
qed

lemma collect_results_frame:
  "cleaned_jobs (snd (collect_results given fs res s)) = cleaned_jobs s
   \<and> futures (snd (collect_results given fs res s)) = futures s
   \<and> last_call (snd (collect_results given fs res s)) = last_call s
   \<and> total_jobs (snd (collect_results given fs res s)) = total_jobs s"
  by (induction given fs res s rule: collect_results.induct) simp_all

lemma get_result_Inl:
  "wait W nb s fs True = (Inl e, s1) \<Longrightarrow> get_result W nb s fs = (Inl e, s1)"
  by (simp add: get_result_def)

lemma get_result_Inr:
  assumes "wait W nb s fs True = (Inr (d, nd), s1)"
  shows "snd (get_result W nb s fs) =
           snd (collect_results (list_truthy fs)
                  (filter (\<lambda>f. fut_futures (heap s1 f) = [] \<and> fut_produce_output (heap s1 f)) d)
                  [] s1)"
    and "fst (get_result W nb s fs) =
           Inr (let res = fst (collect_results (list_truthy fs)
                  (filter (\<lambda>f. fut_futures (heap s1 f) = [] \<and> fut_produce_output (heap s1 f)) d)
                  [] s1)
                in if length res = 1 \<and> last_call s1 \<noteq> Some ''map''
                   then Bare (hd res) else Results res)"
proof -
  let ?c = "collect_results (list_truthy fs)
              (filter (\<lambda>f. fut_futures (heap s1 f) = [] \<and> fut_produce_output (heap s1 f)) d)
              [] s1"
  obtain res s2 where c: "?c = (res, s2)" by (cases ?c)
  from collect_results_frame [of "list_truthy fs" _ "[]" s1] c
  have "last_call s2 = last_call s1" by (metis snd_conv)
  with assms c show "snd (get_result W nb s fs) = snd ?c"
    and "fst (get_result W nb s fs) =
           Inr (let res = fst ?c
                in if length res = 1 \<and> last_call s1 \<noteq> Some ''map''
                   then Bare (hd res) else Results res)"
    by (simp_all add: get_result_def Let_def)
qed

lemma get_result_mono: "cleaned_jobs s \<subseteq> cleaned_jobs (snd (get_result W nb s fs))"
proof -
  obtain r s1 where w: "wait W nb s fs True = (r, s1)"
    by (cases "wait W nb s fs True")
  with wait_mono [of s W nb fs True] have m: "cleaned_jobs s \<subseteq> cleaned_jobs s1" by simp
  show ?thesis
  proof (cases r)
    case (Inl e)
    with w m show ?thesis by (simp add: get_result_Inl)
  next
    case (Inr p)
    obtain d nd where "p = (d, nd)" by (cases p)
    with w Inr have "wait W nb s fs True = (Inr (d, nd), s1)" by simp
    from get_result_Inr(1) [OF this] m show ?thesis
      by (simp add: collect_results_frame)
  qed
qed

lemma submit_frame:
  "cleaned_jobs (snd (submit R s built)) = cleaned_jobs s"
  "total_jobs (snd (submit R s built)) = total_jobs s"
  by (simp_all add: submit_def Let_def split: prod.splits sum.splits)

lemma map_fn_cleaned_jobs: "cleaned_jobs (snd (map_fn E R s c)) = cleaned_jobs s"
  by (simp add: map_fn_def create_job_id_def submit_def Let_def
        split: prod.splits sum.splits)

lemma call_async_cleaned_jobs: "cleaned_jobs (snd (call_async E R s c)) = cleaned_jobs s"
  by (simp add: call_async_def create_job_id_def submit_def Let_def
        split: prod.splits sum.splits list.splits)

lemma later_cleaned_jobs: "later s t \<Longrightarrow> cleaned_jobs s \<subseteq> cleaned_jobs t"
proof (induction rule: later.induct)
  case (later_refl s)
  show ?case by simp
next
  case (later_clean s t fs cs cc sp force)
  with clean_mono [of t fs cs cc sp force] show ?case by blast
next
  case (later_wait s t W nb fs dl)
  with wait_mono [of t W nb fs dl] show ?case by blast
next
  case (later_get_result s t W nb fs)
  with get_result_mono [of t W nb fs] show ?case by blast
next
  case (later_map s t E R c)
  then show ?case by (simp add: map_fn_cleaned_jobs)
next
  case (later_call_async s t E R c)
  then show ?case by (simp add: call_async_cleaned_jobs)
next
  case (later_monitor s t h)
  then show ?case by simp
qed

text \<open>
  C5. A call of \<^verbatim>\<open>clean\<close> hands over no job key that is already in the executor's
  set of cleaned jobs, and adds every key it hands over to that set. The set never
  shrinks in a session, whatever is called afterwards. So once a call has handed a job
  to the cleaner, no later call of \<^verbatim>\<open>clean\<close> in the session hands it over again,
  forced or not.
\<close>

theorem clean_idempotent:
  "jobs_handed (new_events s (clean s fs cs cc sp force)) \<inter> cleaned_jobs s = {}
   \<and> cleaned_jobs (clean s fs cs cc sp force)
       = cleaned_jobs s \<union> jobs_handed (new_events s (clean s fs cs cc sp force))
   \<and> (\<forall>t fs' cs' cc' sp' force'. later (clean s fs cs cc sp force) t \<longrightarrow>
         jobs_handed (new_events s (clean s fs cs cc sp force))
           \<inter> jobs_handed (new_events t (clean t fs' cs' cc' sp' force')) = {})"
proof -
  let ?c = "clean s fs cs cc sp force"
  have fresh: "jobs_handed (new_events u (clean u fs' cs' cc' sp' force')) \<inter> cleaned_jobs u = {}"
    for u :: "'a executor" and fs' cs' cc' sp' force'
    by (auto simp: clean_handed)
  have added: "cleaned_jobs ?c = cleaned_jobs s \<union> jobs_handed (new_events s ?c)"
    by (rule clean_cleaned_jobs)
  have again: "jobs_handed (new_events s ?c)
           \<inter> jobs_handed (new_events t (clean t fs' cs' cc' sp' force')) = {}"
    if "later ?c t" for t fs' cs' cc' sp' force'
  proof -
    from later_cleaned_jobs [OF that] added
    have "jobs_handed (new_events s ?c) \<subseteq> cleaned_jobs t" by blast
    with fresh [of t fs' cs' cc' sp' force'] show ?thesis by blast
  qed
  from fresh [of s fs cs cc sp force] added again show ?thesis by blast
qed

theorem clean_idempotent_witness:
  "create_job_key ''e1-0'' ''M000''
     \<in> jobs_handed (new_events (demo_executor Map.empty [0, 1, 2])
          (clean (demo_executor Map.empty [0, 1, 2]) None None True True False))
   \<and> create_job_key ''e1-0'' ''M000''
     \<notin> jobs_handed (new_events (clean (demo_executor Map.empty [0, 1, 2]) None None True True False)
          (clean (clean (demo_executor Map.empty [0, 1, 2]) None None True True False)
             None None True True True))"
proof -
  let ?s = "demo_executor Map.empty [0, 1, 2]"
  let ?c = "clean ?s None None True True False"
  have first: "create_job_key ''e1-0'' ''M000'' \<in> jobs_handed (new_events ?s ?c)"
    unfolding clean_handed present_jobs_unforced
    by (auto simp: executor_demo_defs create_job_key_def intro!: bexI [of _ 0])
  have "later ?c ?c" by (rule later_refl)
  with clean_idempotent [of ?s None None True True False]
  have "jobs_handed (new_events ?s ?c)
          \<inter> jobs_handed (new_events ?c (clean ?c None None True True True)) = {}"
    by blast
  with first show ?thesis by blast
qed

subsection \<open>An exception in the wait\<close>

lemma wait_raised:
  assumes "W (or_list fs (futures s)) (heap s) = (Some e, h)"
  shows "wait W nb s fs dl =
           (Inl e, wait_finally (fst (wait_except nb (s\<lparr>heap := h\<rparr>) fs (or_list fs (futures s))))
                     (snd (wait_except nb (s\<lparr>heap := h\<rparr>) fs (or_list fs (futures s)))))"
  using assms by (simp add: wait_def Let_def split: prod.splits)

lemma wait_finally_trace:
  "\<exists>rest. trace (wait_finally s futs)
      = trace s @ MonitorStop (set (map (\<lambda>f. fut_job_key (heap s f)) futs)) # rest"
proof (cases "data_cleaner s \<and> \<not> is_lithops_worker s")
  case True
  let ?pj = "set (map (\<lambda>f. fut_job_key (heap s f)) futs)"
  let ?u = "emit (ComputeClear ?pj) (emit (MonitorStop ?pj) s)"
  from clean_trace_prefix [of ?u None None False True False]
  obtain evs where "trace (clean ?u None None False True False) = trace ?u @ MakeCleanerDir # evs"
    by blast
  with True show ?thesis by (simp add: wait_finally_def Let_def)
next
  case False
  then show ?thesis by (auto simp: wait_finally_def Let_def)
qed

lemma wait_finally_no_cleaner:
  "\<not> (data_cleaner s \<and> \<not> is_lithops_worker s) \<Longrightarrow>
     wait_finally s futs = emit (MonitorStop (set (map (\<lambda>f. fut_job_key (heap s f)) futs))) s"
  by (auto simp: wait_finally_def Let_def)

text \<open>
  The state in which the handler calls \<^verbatim>\<open>clean\<close>: the invoker is stopped, and in a
  notebook session without an explicit list the executor's list of Futures is emptied.
\<close>

lemma wait_except_state:
  "wait_except nb s fs (or_list fs (futures s)) =
     (let s2 = (if \<not> list_truthy fs \<and> nb then (emit InvokerStop s)\<lparr>futures := []\<rparr>
                else emit InvokerStop s)
      in (if data_cleaner s \<and> \<not> is_lithops_worker s
          then clean s2 None None False True True else s2,
          if \<not> list_truthy fs \<and> nb then [] else or_list fs (futures s)))"
  by (cases "list_truthy fs") (simp_all add: wait_except_def Let_def or_list_falsy)

lemma forced_clean_trace:
  "trace (clean s None None cc True True) =
     trace s @ MakeCleanerDir #
       (let J = present_jobs (heap s) (futures s) True - cleaned_jobs s
        in if J \<noteq> {} then [SaveJobsToClean J cc, SpawnCleaner] else [])"
  using clean_full(1) [where s = s and fs = None and cs = None and cc = cc and sp = True
      and force = True, OF _ refl]
  by (simp add: Let_def)


lemma clean_no_fetch:
  "\<exists>evs. trace (clean s fs cs cc sp force) = trace s @ evs \<and> fetched evs = []"
proof (cases "list_truthy cs \<and> \<not> list_truthy fs")
  case True
  then show ?thesis
    using clean_early(1) [where s = s and force = force and cc = cc and sp = sp
        and cs = cs and fs = fs] by simp
next
  case False
  from clean_full(1) [OF False refl, where s = s and force = force and cc = cc and sp = sp]
  show ?thesis by (simp add: fetched_append)
qed

lemma wait_finally_no_fetch:
  "\<exists>evs. trace (wait_finally s futs) = trace s @ evs \<and> fetched evs = []"
proof (cases "data_cleaner s \<and> \<not> is_lithops_worker s")
  case True
  let ?pj = "set (map (\<lambda>f. fut_job_key (heap s f)) futs)"
  let ?u = "emit (ComputeClear ?pj) (emit (MonitorStop ?pj) s)"
  from clean_no_fetch [of ?u None None False True False]
  obtain evs where "trace (clean ?u None None False True False) = trace ?u @ evs"
    and "fetched evs = []" by blast
  with True show ?thesis
    by (simp add: wait_finally_def Let_def fetched_append)
next
  case False
  then show ?thesis by (auto simp: wait_finally_def Let_def)
qed

lemma wait_except_no_fetch:
  "\<exists>evs. trace (fst (wait_except nb s fs (or_list fs (futures s)))) = trace s @ evs
         \<and> fetched evs = []"
proof -
  let ?s2 = "if \<not> list_truthy fs \<and> nb then (emit InvokerStop s)\<lparr>futures := []\<rparr>
             else emit InvokerStop s"
  have t: "trace ?s2 = trace s @ [InvokerStop]" by simp
  from clean_no_fetch [of ?s2 None None False True True]
  obtain evs where "trace (clean ?s2 None None False True True) = trace ?s2 @ evs"
    and "fetched evs = []" by blast
  with t show ?thesis
    unfolding wait_except_state Let_def
    by (cases "data_cleaner s \<and> \<not> is_lithops_worker s") (simp_all add: fetched_append)
qed

lemma wait_no_fetch:
  "\<exists>evs. trace (snd (wait W nb s fs dl)) = trace s @ evs \<and> fetched evs = []"
proof -
  obtain exn h where w: "W (or_list fs (futures s)) (heap s) = (exn, h)"
    by (cases "W (or_list fs (futures s)) (heap s)")
  let ?s1 = "s\<lparr>heap := h\<rparr>"
  show ?thesis
  proof (cases exn)
    case None
    with w have "snd (wait W nb s fs dl) = wait_finally ?s1 (or_list fs (futures s))"
      by (simp add: wait_def Let_def)
    with wait_finally_no_fetch [of ?s1 "or_list fs (futures s)"] show ?thesis by simp
  next
    case (Some e)
    let ?x = "wait_except nb ?s1 fs (or_list fs (futures s))"
    from w Some have r: "snd (wait W nb s fs dl) = wait_finally (fst ?x) (snd ?x)"
      using wait_raised [where W = W and s = s and fs = fs and nb = nb and dl = dl
          and e = e and h = h] by simp
    from wait_except_no_fetch [of nb ?s1 fs]
    obtain evs1 where e1: "trace (fst ?x) = trace s @ evs1" and f1: "fetched evs1 = []"
      by auto
    from wait_finally_no_fetch [of "fst ?x" "snd ?x"]
    obtain evs2 where e2: "trace (wait_finally (fst ?x) (snd ?x)) = trace (fst ?x) @ evs2"
      and f2: "fetched evs2 = []" by blast
    from r e1 e2 f1 f2 show ?thesis by (simp add: fetched_append)
  qed
qed

text \<open>
  C6. Let the underlying wait raise the exception \<open>e\<close>. Then
  \<^verbatim>\<open>FunctionExecutor.wait\<close> raises \<open>e\<close> itself, and so does \<^verbatim>\<open>get_result\<close>,
  which ends in the state the wait left and fetches no result. The first thing the
  executor does after the failure is to stop the invoker. If the data cleaner is enabled
  and the process is no lithops worker, the forced cleanup follows at once: the cleaner
  directory is prepared and the keys of the jobs of all Futures of the executor's list,
  done or not, that were not cleaned before are handed to the cleaner; at the end of
  the call all these jobs are in the set of cleaned jobs. (In a notebook session without
  an explicit list the handler has emptied the executor's list before, so the forced
  cleanup finds no Future.) Otherwise the call only stops the invoker and the monitor.
\<close>

theorem wait_exception_cleanup:
  assumes raised: "W (or_list fs (futures s)) (heap s) = (Some e, h)"
  shows "fst (wait W nb s fs dl) = Inl e
    \<and> get_result W nb s fs = (Inl e, snd (wait W nb s fs True))
    \<and> fetched (new_events s (snd (get_result W nb s fs))) = []
    \<and> (\<exists>rest. new_events s (snd (wait W nb s fs dl)) = InvokerStop # rest)
    \<and> (data_cleaner s \<and> \<not> is_lithops_worker s \<longrightarrow>
         (let own = (if \<not> list_truthy fs \<and> nb then [] else futures s);
              J = present_jobs h own True - cleaned_jobs s
          in (\<exists>rest. new_events s (snd (wait W nb s fs dl)) =
                InvokerStop # MakeCleanerDir
                  # (if J \<noteq> {} then [SaveJobsToClean J False, SpawnCleaner] else []) @ rest)
             \<and> present_jobs h own True \<subseteq> cleaned_jobs (snd (wait W nb s fs dl))))
    \<and> (\<not> (data_cleaner s \<and> \<not> is_lithops_worker s) \<longrightarrow>
         new_events s (snd (wait W nb s fs dl)) =
           [InvokerStop,
            MonitorStop (set (map (\<lambda>f. fut_job_key (h f))
              (if \<not> list_truthy fs \<and> nb then [] else or_list fs (futures s))))]
         \<and> cleaned_jobs (snd (wait W nb s fs dl)) = cleaned_jobs s)"
proof -
  let ?s1 = "s\<lparr>heap := h\<rparr>"
  let ?del = "\<not> list_truthy fs \<and> nb"
  let ?own = "if ?del then [] else futures s"
  let ?futs' = "if ?del then [] else or_list fs (futures s)"
  let ?s2 = "if ?del then (emit InvokerStop ?s1)\<lparr>futures := []\<rparr> else emit InvokerStop ?s1"
  let ?s3 = "if data_cleaner s \<and> \<not> is_lithops_worker s
             then clean ?s2 None None False True True else ?s2"
  let ?J = "present_jobs h ?own True - cleaned_jobs s"
  have ex: "wait_except nb ?s1 fs (or_list fs (futures s)) = (?s3, ?futs')"
    using wait_except_state [of nb ?s1 fs] by (simp add: Let_def)
  have w: "wait W nb s fs dl = (Inl e, wait_finally ?s3 ?futs')" for dl
    using wait_raised [where W = W and s = s and fs = fs and nb = nb and dl = dl
        and e = e and h = h, OF raised] ex by simp
  have s2: "trace ?s2 = trace s @ [InvokerStop]" "heap ?s2 = h" "futures ?s2 = ?own"
    "cleaned_jobs ?s2 = cleaned_jobs s" "data_cleaner ?s2 = data_cleaner s"
    "is_lithops_worker ?s2 = is_lithops_worker s"
    by simp_all
  have res: "fst (wait W nb s fs dl) = Inl e"
    using w by simp
  have gr: "get_result W nb s fs = (Inl e, snd (wait W nb s fs True))"
    using w [of True] by (simp add: get_result_Inl)
  have cleaner: "(\<exists>rest. new_events s (snd (wait W nb s fs dl)) =
                InvokerStop # MakeCleanerDir
                  # (if ?J \<noteq> {} then [SaveJobsToClean ?J False, SpawnCleaner] else []) @ rest)
             \<and> present_jobs h ?own True \<subseteq> cleaned_jobs (snd (wait W nb s fs dl))"
    if on: "data_cleaner s \<and> \<not> is_lithops_worker s" for dl
  proof -
    let ?c = "clean ?s2 None None False True True"
    have tc: "trace ?c = trace s @ InvokerStop # MakeCleanerDir
          # (if ?J \<noteq> {} then [SaveJobsToClean ?J False, SpawnCleaner] else [])"
      using forced_clean_trace [of ?s2 False] s2 by (simp add: Let_def)
    from wait_finally_trace [of ?c ?futs'] obtain rest where
      "trace (wait_finally ?c ?futs') = trace ?c @ MonitorStop
         (set (map (\<lambda>f. fut_job_key (heap ?c f)) ?futs')) # rest"
      by blast
    with tc on w [of dl] have "\<exists>rest. new_events s (snd (wait W nb s fs dl)) =
                InvokerStop # MakeCleanerDir
                  # (if ?J \<noteq> {} then [SaveJobsToClean ?J False, SpawnCleaner] else []) @ rest"
      by (simp add: new_events_def)
    moreover have "present_jobs h ?own True \<subseteq> cleaned_jobs ?c"
      using clean_full(2) [where s = ?s2 and fs = None and cs = None and cc = False
          and sp = True and force = True, OF _ refl] s2
      by auto
    with wait_finally_mono [of ?c ?futs'] on w [of dl]
    have "present_jobs h ?own True \<subseteq> cleaned_jobs (snd (wait W nb s fs dl))"
      by auto
    ultimately show ?thesis by blast
  qed
  have off: "new_events s (snd (wait W nb s fs dl)) =
           [InvokerStop, MonitorStop (set (map (\<lambda>f. fut_job_key (h f)) ?futs'))]
         \<and> cleaned_jobs (snd (wait W nb s fs dl)) = cleaned_jobs s"
    if no: "\<not> (data_cleaner s \<and> \<not> is_lithops_worker s)" for dl
  proof -
    from no have "\<not> (data_cleaner ?s2 \<and> \<not> is_lithops_worker ?s2)" by simp
    from wait_finally_no_cleaner [OF this, of ?futs'] no w [of dl] show ?thesis
      by (auto simp: new_events_def)
  qed
  have stop: "\<exists>rest. new_events s (snd (wait W nb s fs dl)) = InvokerStop # rest" for dl
    using cleaner [of dl] off [of dl] by (cases "data_cleaner s \<and> \<not> is_lithops_worker s") auto
  have none: "fetched (new_events s (snd (get_result W nb s fs))) = []"
    using wait_no_fetch [of W nb s fs True] gr by auto
  from res gr none stop cleaner off show ?thesis
    by (simp only: Let_def) blast
qed


theorem wait_exception_cleanup_witness:
  "fst (wait demo_failing_waiter False (demo_executor Map.empty [0, 1, 2]) None False)
     = Inl (Exception ''remote call failed'')
   \<and> (\<exists>rest. new_events (demo_executor Map.empty [0, 1, 2])
         (snd (wait demo_failing_waiter False (demo_executor Map.empty [0, 1, 2]) None False))
        = InvokerStop # MakeCleanerDir # rest)
   \<and> create_job_key ''e1-0'' ''M000''
       \<in> cleaned_jobs (snd (wait demo_failing_waiter False (demo_executor Map.empty [0, 1, 2])
            None False))
   \<and> fut_job_id (demo_heap 1) = ''M000'' \<and> \<not> fut_done (demo_heap 1)"
proof -
  let ?s = "demo_executor Map.empty [0, 1, 2]"
  let ?e = "Exception ''remote call failed''"
  let ?w = "wait demo_failing_waiter False ?s None False"
  have r: "demo_failing_waiter (or_list None (futures ?s)) (heap ?s) = (Some ?e, demo_heap)"
    by (simp add: demo_failing_waiter_def demo_executor_def)
  note inst = wait_exception_cleanup [where W = demo_failing_waiter and s = ?s and fs = None
      and e = ?e and h = demo_heap and nb = False and dl = False, OF r]
  have on: "data_cleaner ?s \<and> \<not> is_lithops_worker ?s"
    by (simp add: demo_executor_def)
  have own: "(if \<not> list_truthy None \<and> False then [] else futures ?s) = [0, 1, 2]"
    by (simp add: demo_executor_def)
  from inst have res: "fst ?w = Inl ?e" by (rule conjunct1)
  note forced = inst [THEN conjunct2, THEN conjunct2, THEN conjunct2, THEN conjunct2,
      THEN conjunct1, THEN mp, OF on]
  from forced have tr: "\<exists>rest. new_events ?s (snd ?w) = InvokerStop # MakeCleanerDir # rest"
    and sub: "present_jobs demo_heap [0, 1, 2] True \<subseteq> cleaned_jobs (snd ?w)"
    unfolding Let_def own by auto
  have "create_job_key ''e1-0'' ''M000'' \<in> present_jobs demo_heap [0, 1, 2] True"
    by (simp add: present_jobs_def demo_heap_def demo_future_def)
  with sub have "create_job_key ''e1-0'' ''M000'' \<in> cleaned_jobs (snd ?w)" by blast
  moreover have "fut_job_id (demo_heap 1) = ''M000'' \<and> \<not> fut_done (demo_heap 1)"
    by (simp add: demo_heap_def demo_future_def)
  ultimately show ?thesis using res tr by blast
qed

end
